theory Spec2Isabelle
  imports Complex_Main "HOL-Library.Sublist" "HOL-Library.Multiset"
    "HOL-Library.Char_ord" "HOL-Library.List_Lexorder"
begin

text \<open>
  The asynchronous output pipeline of \<open>img_common/autoencoder.py\<close>: the job that
  computes the metrics of one reconstructed image, waits for its size cell and writes
  the image; the coordinator that feeds the two pools; and the builder of the reports.
  Collaborators outside the file (\<open>ImgProc\<close>, the enumerations, numpy and pandas)
  appear as parameters or as the outcomes of their calls.
\<close>

section \<open>Python values, exceptions and shared lists\<close>

text \<open>
  The classes of \<open>Exception\<close> that the modelled code can raise or receive from its
  collaborators. \<open>except Exception\<close> catches every one of them.
\<close>

datatype exn = TypeError | ValueError | IndexError | OSError

text \<open>
  The content of one cell of a shared list (\<open>manager.list([None] * var_len)\<close>):
  the initial \<open>None\<close>, a float, or a list of floats (one entry per quality level).
  Floats are idealised as reals.
\<close>

datatype pyval = PNone | PFloat real | PList "real list"

text \<open>Python's truth value \<open>bool(v)\<close>, which \<open>not v\<close> negates.\<close>

fun truthy :: "pyval \<Rightarrow> bool" where
  "truthy PNone = False"
| "truthy (PFloat x) = (x \<noteq> 0)"
| "truthy (PList xs) = (xs \<noteq> [])"

text \<open>\<open>xs[i]\<close> and \<open>xs[i] = v\<close> for an index \<open>i \<ge> 0\<close>: out of range raises.\<close>

definition getitem :: "'a list \<Rightarrow> nat \<Rightarrow> exn + 'a" where
  "getitem xs i = (if i < length xs then Inr (xs ! i) else Inl IndexError)"

definition setitem :: "'a list \<Rightarrow> nat \<Rightarrow> 'a \<Rightarrow> exn + 'a list" where
  "setitem xs i v = (if i < length xs then Inr (xs[i := v]) else Inl IndexError)"

section \<open>Paths\<close>

text \<open>
  A \<open>pathlib.Path\<close> is the list of its components. \<open>p / s\<close> appends the component
  \<open>s\<close>; \<open>p.name\<close> is the last component and \<open>p.stem\<close> is the name without its last
  suffix (\<open>i = name.rfind('.')\<close>, cut at \<open>i\<close> when \<open>0 < i < len(name) - 1\<close>).
\<close>

type_synonym path = "string list"

definition truediv :: "path \<Rightarrow> string \<Rightarrow> path" where
  "truediv p s = p @ [s]"

definition name_of :: "path \<Rightarrow> string" where
  "name_of p = (if p = [] then [] else last p)"

fun rfind :: "char \<Rightarrow> string \<Rightarrow> nat option" where
  "rfind c [] = None"
| "rfind c (x # xs) =
     (case rfind c xs of
        Some i \<Rightarrow> Some (Suc i)
      | None \<Rightarrow> if x = c then Some 0 else None)"

definition stem :: "path \<Rightarrow> string" where
  "stem p =
     (let name = name_of p in
      case rfind (CHR ''.'') name of
        Some i \<Rightarrow> if 0 < i \<and> i < length name - 1 then take i name else name
      | None \<Rightarrow> name)"

text \<open>
  \<open>get_out_pathname(img_path, save_folder, ext)\<close>. The folder is \<open>None\<close> when the
  output type is \<open>NONE\<close>, and \<open>Path(None)\<close> raises \<open>TypeError\<close>.
\<close>

definition get_out_pathname :: "path \<Rightarrow> path option \<Rightarrow> string \<Rightarrow> exn + path" where
  "get_out_pathname img_path save_folder ext =
     (case save_folder of
        None \<Rightarrow> Inl TypeError
      | Some folder \<Rightarrow>
          (let new_name = stem img_path @ ext;
               save_name = truediv folder new_name
           in Inr save_name))"

section \<open>The reconstruction job of the second pool\<close>

text \<open>
  A member of the \<open>Metrics\<close> enumeration: \<open>metric[0]\<close> is the row of the metric in
  the table of one codec, \<open>str(metric)\<close> its name. The enumeration itself is a
  parameter of the model (a list of members in definition order).
\<close>

record metric =
  m_index :: nat
  m_name :: string

text \<open>
  The collaborator \<open>ImgProc\<close>, as the outcomes of its calls: \<open>load_image\<close> and
  \<open>calc_metric\<close> return a value or raise, \<open>save_img\<close> writes the file or raises.
\<close>

record ('img, 'd) imgproc =
  load_image :: "path \<Rightarrow> exn + 'img"
  calc_metric :: "'img \<Rightarrow> 'd \<Rightarrow> metric \<Rightarrow> exn + pyval"
  save_img :: "'d \<Rightarrow> path \<Rightarrow> exn option"

text \<open>What a job does that is visible outside it, in program order.\<close>

datatype event =
    WroteMetric nat nat pyval
  | Sleep
  | TimeoutMsg path
  | PrintExc exn
  | SavedImg path

text \<open>
  The state a job acts on: the metric lists of the learned codec (one list per metric,
  one cell per image) and the events so far.
\<close>

record job_state =
  tbl :: "pyval list list"
  evs :: "event list"

definition emit :: "event \<Rightarrow> job_state \<Rightarrow> job_state" where
  "emit e s = s\<lparr>evs := evs s @ [e]\<rparr>"

text \<open>\<open>metrics_proxy[k][pos] = v\<close>\<close>

definition store_metric :: "pyval list list \<Rightarrow> nat \<Rightarrow> nat \<Rightarrow> pyval \<Rightarrow> exn + pyval list list" where
  "store_metric t k pos v =
     (case getitem t k of
        Inl e \<Rightarrow> Inl e
      | Inr row \<Rightarrow>
          (case setitem row pos v of
             Inl e \<Rightarrow> Inl e
           | Inr row' \<Rightarrow> Inr (t[k := row'])))"

text \<open>
  The loop \<open>for metric in Metrics\<close>. The result is the exception that ended it, if
  any, and the state reached: the cells written before an exception stay written.
\<close>

fun metrics_loop ::
  "('img, 'd) imgproc \<Rightarrow> 'img \<Rightarrow> 'd \<Rightarrow> nat \<Rightarrow> metric list \<Rightarrow> job_state
     \<Rightarrow> exn option \<times> job_state" where
  "metrics_loop ip orig_ref patches pos [] s = (None, s)"
| "metrics_loop ip orig_ref patches pos (m # ms) s =
     (case calc_metric ip orig_ref patches m of
        Inl e \<Rightarrow> (Some e, s)
      | Inr v \<Rightarrow>
          (case store_metric (tbl s) (m_index m) pos v of
             Inl e \<Rightarrow> (Some e, s)
           | Inr t \<Rightarrow>
               metrics_loop ip orig_ref patches pos ms
                 (emit (WroteMetric (m_index m) pos v) (s\<lparr>tbl := t\<rparr>))))"

text \<open>
  The wait on the size cell. \<open>bpp_at t\<close> is the shared list \<open>bpp_proxy\<close> as this job
  reads it at its check number \<open>t\<close> (the other pool writes it meanwhile), and \<open>t\<close> is
  also the number of \<open>time.sleep(1)\<close> calls made so far. The counter \<open>cont\<close> is passed
  on as it is: the loop body does not change it.
\<close>

datatype wait_result = Ready nat | TimedOut nat | ReadRaised exn nat

partial_function (option) wait_loop ::
  "(nat \<Rightarrow> pyval list) \<Rightarrow> nat \<Rightarrow> int \<Rightarrow> nat \<Rightarrow> wait_result option" where
  "wait_loop bpp_at pos cont t =
     (if \<not> pos < length (bpp_at t) then Some (ReadRaised IndexError t)
      else if truthy (bpp_at t ! pos) then Some (Ready t)
      else if cont > 100 then Some (TimedOut (Suc t))
      else wait_loop bpp_at pos cont (Suc t))"

definition sleeps :: "nat \<Rightarrow> job_state \<Rightarrow> job_state" where
  "sleeps n s = s\<lparr>evs := evs s @ replicate n Sleep\<rparr>"

text \<open>\<open>except Exception: print_exc()\<close>\<close>

definition handler :: "exn \<Rightarrow> job_state \<Rightarrow> job_state" where
  "handler e s = emit (PrintExc e) s"

text \<open>
  The first part of the body of \<open>_save_imgs_from_patches\<close>: \<open>load_image\<close> and the
  loop over the metrics, from the metric lists as they are when the job starts.
\<close>

definition metrics_phase ::
  "('img, 'd) imgproc \<Rightarrow> metric list \<Rightarrow> path \<Rightarrow> 'd \<Rightarrow> pyval list list \<Rightarrow> nat
     \<Rightarrow> exn option \<times> job_state" where
  "metrics_phase ip Metrics orig_path patches metrics_proxy pos =
     (let s0 = \<lparr>tbl = metrics_proxy, evs = []\<rparr> in
      case load_image ip orig_path of
        Inl e \<Rightarrow> (Some e, s0)
      | Inr orig_ref \<Rightarrow> metrics_loop ip orig_ref patches pos Metrics s0)"

text \<open>
  The second part: \<open>cont = 0\<close>, the wait, \<open>get_out_pathname\<close> and \<open>save_img\<close>.
  The result is \<open>None\<close> when the wait never ends.
\<close>

definition wait_and_save ::
  "('img, 'd) imgproc \<Rightarrow> (nat \<Rightarrow> pyval list) \<Rightarrow> path \<Rightarrow> path option \<Rightarrow> 'd \<Rightarrow> nat
     \<Rightarrow> job_state \<Rightarrow> job_state option" where
  "wait_and_save ip bpp_at orig_path save_folder patches pos s =
     (case wait_loop bpp_at pos 0 0 of
        None \<Rightarrow> None
      | Some (ReadRaised e t) \<Rightarrow> Some (handler e (sleeps t s))
      | Some (TimedOut t) \<Rightarrow> Some (emit (TimeoutMsg orig_path) (sleeps t s))
      | Some (Ready t) \<Rightarrow>
          (case get_out_pathname orig_path save_folder ''.png'' of
             Inl e \<Rightarrow> Some (handler e (sleeps t s))
           | Inr new_path \<Rightarrow>
               (case save_img ip patches new_path of
                  Some e \<Rightarrow> Some (handler e (sleeps t s))
                | None \<Rightarrow> Some (emit (SavedImg new_path) (sleeps t s)))))"

text \<open>
  \<open>_save_imgs_from_patches\<close>. The result is the state when the job returns, and
  \<open>None\<close> when it never returns.
\<close>

definition save_imgs_from_patches ::
  "('img, 'd) imgproc \<Rightarrow> metric list \<Rightarrow> (nat \<Rightarrow> pyval list) \<Rightarrow>
     path \<Rightarrow> path option \<Rightarrow> 'd \<Rightarrow> pyval list list \<Rightarrow> nat \<Rightarrow> job_state option" where
  "save_imgs_from_patches ip Metrics bpp_at orig_path save_folder patches metrics_proxy pos =
     (case metrics_phase ip Metrics orig_path patches metrics_proxy pos of
        (Some e, s) \<Rightarrow> Some (handler e s)
      | (None, s) \<Rightarrow> wait_and_save ip bpp_at orig_path save_folder patches pos s)"

text \<open>
  Two ways the other pool can behave towards one job: the list is never written while
  the job looks (\<open>unchanged\<close>), or cell \<open>pos\<close> is written with \<open>v\<close> just before
  check number \<open>w\<close> (\<open>written_at\<close>).
\<close>

definition unchanged :: "pyval list \<Rightarrow> nat \<Rightarrow> pyval list" where
  "unchanged xs t = xs"

definition written_at :: "nat \<Rightarrow> pyval list \<Rightarrow> nat \<Rightarrow> pyval \<Rightarrow> nat \<Rightarrow> pyval list" where
  "written_at w xs pos v t = (if t < w then xs else xs[pos := v])"

section \<open>The shared tables\<close>

text \<open>
  \<open>_instantiate_shared_variables(var_len)\<close>, without the two pools: one size list
  per codec and one metric list per codec and metric, each \<open>[None] * var_len\<close>.
\<close>

definition instantiate_shared_variables ::
  "nat \<Rightarrow> nat \<Rightarrow> nat \<Rightarrow> pyval list list \<times> pyval list list list" where
  "instantiate_shared_variables n_codecs n_metrics var_len =
     (let bpps = replicate n_codecs (replicate var_len PNone);
          metrics = replicate n_codecs (replicate n_metrics (replicate var_len PNone))
      in (bpps, metrics))"

section \<open>The output folder\<close>

text \<open>
  Modelled from the spec: the enumerations \<open>ExecMode\<close>, \<open>OutputType\<close> and \<open>Folders\<close>
  of \<open>enums.py\<close>, which is not among the sources. The members are those the code
  names (\<open>ExecMode.TRAIN\<close>, \<open>ExecMode.TEST\<close>, \<open>OutputType.NONE\<close>,
  \<open>OutputType.RESIDUES\<close>, \<open>OutputType.RECONSTRUCTION\<close>, \<open>Folders.TEST\<close>,
  \<open>Folders.VALIDATION\<close>) and the validation mode of the generators; the strings are
  the subfolder names of the spec (\<open>test\<close>, \<open>validation\<close>, a residues subfolder).
\<close>

datatype ExecMode = Exec_TRAIN | Exec_VALID | Exec_TEST

datatype OutputType = Out_NONE | Out_RECONSTRUCTION | Out_RESIDUES

text \<open>
  Modelled from the spec: \<open>str(Folders.TEST)\<close>, \<open>str(Folders.VALIDATION)\<close> and
  \<open>str(OutputType.RESIDUES)\<close>, whose enumerations are in the missing \<open>enums.py\<close>:
  the subfolders \<open>test\<close> and \<open>validation\<close> of the spec, and a name for its residues
  subfolder.
\<close>

definition str_Folders_TEST :: string where
  "str_Folders_TEST = ''test''"

definition str_Folders_VALIDATION :: string where
  "str_Folders_VALIDATION = ''validation''"

definition str_OutputType_RESIDUES :: string where
  "str_OutputType_RESIDUES = ''residues''"

text \<open>The fields of \<open>AutoEnc.State\<close> that the output coordinator reads.\<close>

record state =
  exec_mode :: ExecMode
  out_type :: OutputType

text \<open>
  A value that is either a \<open>Path\<close> or a \<open>str\<close>. \<open>x /= s\<close> is defined for a \<open>Path\<close>
  and raises \<open>TypeError\<close> for two strings.
\<close>

datatype pathlike = APath path | AStr string

definition itruediv :: "pathlike \<Rightarrow> string \<Rightarrow> exn + path" where
  "itruediv x s = (case x of APath p \<Rightarrow> Inr (truediv p s) | AStr _ \<Rightarrow> Inl TypeError)"

text \<open>
  The file system is the set of directories that exist.
  \<open>mkdir(parents=True, exist_ok=True)\<close> adds the path and its ancestors; failures of
  the operating system are not modelled.
\<close>

definition mkdir_parents :: "path \<Rightarrow> path set \<Rightarrow> path set" where
  "mkdir_parents p fs = fs \<union> set (prefixes p)"

text \<open>\<open>_create_out_folder\<close>, with \<open>self.out_name\<close> as a parameter.\<close>

definition create_out_folder ::
  "state \<Rightarrow> path \<Rightarrow> path set \<Rightarrow> (exn + path option) \<times> path set" where
  "create_out_folder st out_name fs =
     (if out_type st = Out_NONE then (Inr None, fs)
      else
        (let pred_folder = APath out_name;
             pred_folder =
               (if exec_mode st = Exec_TRAIN
                then (if out_type st = Out_RESIDUES then AStr str_OutputType_RESIDUES
                      else pred_folder)
                else pred_folder);
             sub = (if exec_mode st = Exec_TEST then str_Folders_TEST
                    else str_Folders_VALIDATION)
         in case itruediv pred_folder sub of
              Inl e \<Rightarrow> (Inl e, fs)
            | Inr p \<Rightarrow> (Inr (Some p), mkdir_parents p fs)))"

section \<open>The output coordinator\<close>

text \<open>
  The two jobs with their arguments (the shared lists of the learned codec are the same
  in every call and left out), and what the coordinator does, in program order.
\<close>

datatype 'd job =
    CalcBppUsingGzip 'd path nat
  | SaveImgsFromPatches path "path option" 'd nat

datatype 'd action =
    GcCollect
  | QueueGet 'd
  | ApplyAsync nat "'d job"
  | PoolClose nat
  | PoolJoin nat
  | SaveOutAnalysis "path list" "path option"

text \<open>\<open>_codecs_out_routines\<close>\<close>

definition codecs_out_routines ::
  "path \<Rightarrow> nat \<Rightarrow> 'd \<Rightarrow> 'd \<Rightarrow> path option \<Rightarrow> 'd action list" where
  "codecs_out_routines path img_num data patches out_folder =
     [ApplyAsync 0 (CalcBppUsingGzip data path img_num),
      ApplyAsync 1 (SaveImgsFromPatches path out_folder patches img_num)]"

text \<open>
  The loop \<open>for img_num, img in enumerate(img_pathnames)\<close>. The queue is the list of
  the items that the inference loop ever puts on it, in order; \<open>out_queue.get()\<close> on a
  queue that stays empty blocks for ever, and the flag of the result is then \<open>False\<close>.
\<close>

fun main_loop ::
  "path option \<Rightarrow> (nat \<times> path) list \<Rightarrow> 'd list \<Rightarrow> 'd action list \<times> bool" where
  "main_loop out_folder [] queue = ([], True)"
| "main_loop out_folder ((img_num, img) # rest) queue =
     (let gc = (if img_num mod 5 = 0 then [GcCollect] else []) in
      case queue of
        [] \<Rightarrow> (gc, False)
      | model_data # queue' \<Rightarrow>
          (let patches = model_data;
               submitted = codecs_out_routines img img_num model_data patches out_folder;
               (later, finished) = main_loop out_folder rest queue'
           in (gc @ [QueueGet model_data] @ submitted @ later, finished)))"

text \<open>The jobs submitted to pool \<open>n\<close>, in order.\<close>

fun submitted_to :: "nat \<Rightarrow> 'd action list \<Rightarrow> 'd job list" where
  "submitted_to n [] = []"
| "submitted_to n (ApplyAsync k j # as) =
     (if k = n then j # submitted_to n as else submitted_to n as)"
| "submitted_to n (a # as) = submitted_to n as"

datatype status = CalledReport | Raised exn | BlockedOnGet | BlockedOnJoin nat

text \<open>
  \<open>_handle_output\<close>, up to the call of the report builder. The listing of the
  generator, \<open>img_pathnames\<close>, is a parameter, and of the file system only the outcome
  of \<open>_create_out_folder\<close> is used. \<open>p.join()\<close> returns when every job submitted to
  the pool has returned; \<open>job_returns\<close> tells which jobs do.
\<close>

definition handle_output ::
  "('d job \<Rightarrow> bool) \<Rightarrow> state \<Rightarrow> path \<Rightarrow> path set \<Rightarrow> path list \<Rightarrow> 'd list
     \<Rightarrow> 'd action list \<times> status" where
  "handle_output job_returns st out_name fs img_pathnames queue =
     (case fst (create_out_folder st out_name fs) of
        Inl e \<Rightarrow> ([], Raised e)
      | Inr out_folder \<Rightarrow>
          (case main_loop out_folder (enumerate 0 img_pathnames) queue of
             (acts, False) \<Rightarrow> (acts, BlockedOnGet)
           | (acts, True) \<Rightarrow>
               (let closed = acts @ [PoolClose 0, PoolClose 1] in
                if \<not> list_all job_returns (submitted_to 0 acts)
                then (closed @ [PoolJoin 0], BlockedOnJoin 0)
                else if \<not> list_all job_returns (submitted_to 1 acts)
                then (closed @ [PoolJoin 0, PoolJoin 1], BlockedOnJoin 1)
                else (closed @ [PoolJoin 0, PoolJoin 1,
                                SaveOutAnalysis img_pathnames out_folder], CalledReport))))"

section \<open>The jobs of a run and the cells they write\<close>

text \<open>
  Modelled from the spec: \<open>ImgProc.calc_bpp_using_gzip\<close> of \<open>processing.py\<close>, which
  is not among the sources. By the spec the job of the first pool, given the payload
  and its index, computes a size estimate for the learned codec and writes it into the
  size cell of that index. \<open>estimate\<close> is the outcome of the computation; when it
  raises, nothing is written.
\<close>

definition calc_bpp_using_gzip ::
  "('d \<Rightarrow> path \<Rightarrow> exn + pyval) \<Rightarrow> 'd \<Rightarrow> path \<Rightarrow> pyval list \<Rightarrow> nat
     \<Rightarrow> pyval list \<times> nat list" where
  "calc_bpp_using_gzip estimate data path bpp_proxy img_num =
     (case estimate data path of
        Inl e \<Rightarrow> (bpp_proxy, [])
      | Inr v \<Rightarrow>
          (case setitem bpp_proxy img_num v of
             Inl e \<Rightarrow> (bpp_proxy, [])
           | Inr bpp_proxy' \<Rightarrow> (bpp_proxy', [img_num])))"

text \<open>A cell of the tables: codec and image, or codec, metric row and image.\<close>

datatype cell = SizeCell nat nat | MetricCell nat nat nat

fun metric_writes :: "nat \<Rightarrow> event list \<Rightarrow> cell list" where
  "metric_writes c [] = []"
| "metric_writes c (WroteMetric k pos v # es) = MetricCell c k pos # metric_writes c es"
| "metric_writes c (e # es) = metric_writes c es"

text \<open>
  The lists of the learned codec (index \<open>net\<close> in \<open>Codecs\<close>) and the cells written so
  far. The jobs of a run are taken one after the other in the order of submission: a
  job writes cells of its own index only, and what it writes does not depend on the
  content of the lists, so every other interleaving writes the same cells.
\<close>

record tables =
  bpp_net :: "pyval list"
  metrics_net :: "pyval list list"
  written :: "cell list"

fun run_job ::
  "('img, 'd) imgproc \<Rightarrow> ('d \<Rightarrow> path \<Rightarrow> exn + pyval) \<Rightarrow> metric list \<Rightarrow> nat
     \<Rightarrow> 'd job \<Rightarrow> tables \<Rightarrow> tables" where
  "run_job ip estimate Metrics net (CalcBppUsingGzip data path img_num) T =
     (let (bpp', ws) = calc_bpp_using_gzip estimate data path (bpp_net T) img_num
      in T\<lparr>bpp_net := bpp', written := written T @ map (SizeCell net) ws\<rparr>)"
| "run_job ip estimate Metrics net (SaveImgsFromPatches path out_folder patches img_num) T =
     (let (x, s) = metrics_phase ip Metrics path patches (metrics_net T) img_num
      in T\<lparr>metrics_net := tbl s, written := written T @ metric_writes net (evs s)\<rparr>)"

fun jobs_of :: "'d action list \<Rightarrow> 'd job list" where
  "jobs_of [] = []"
| "jobs_of (ApplyAsync k j # as) = j # jobs_of as"
| "jobs_of (a # as) = jobs_of as"

definition run_jobs ::
  "('img, 'd) imgproc \<Rightarrow> ('d \<Rightarrow> path \<Rightarrow> exn + pyval) \<Rightarrow> metric list \<Rightarrow> nat
     \<Rightarrow> 'd job list \<Rightarrow> tables \<Rightarrow> tables" where
  "run_jobs ip estimate Metrics net js T = fold (run_job ip estimate Metrics net) js T"

section \<open>The report builder\<close>

text \<open>\<open>str(n)\<close> for \<open>n \<ge> 0\<close>\<close>

definition digit_char :: "nat \<Rightarrow> char" where
  "digit_char d = ''0123456789'' ! d"

fun str_nat :: "nat \<Rightarrow> string" where
  "str_nat n = (if n < 10 then [digit_char n] else str_nat (n div 10) @ [digit_char (n mod 10)])"

text \<open>
  A row of a report is labelled with an image or with \<open>mean\<close>. An entry of a row is a
  float, or nothing: a missing value (\<open>None\<close> or \<open>NaN\<close>), which \<open>to_csv\<close> writes as an
  empty field. A report is what \<open>to_csv\<close> is given: the file, the column names, the
  rows, and the format of floats.
\<close>

datatype 'i label = Img 'i | Mean

record 'i report =
  csv_file :: path
  columns :: "string list"
  rows :: "('i label \<times> real option list) list"
  float_format :: string

text \<open>
  \<open>save_csv\<close>. The \<open>DataFrame\<close> constructor raises \<open>ValueError\<close> when the shape of
  the data does not fit the index and the columns. \<open>sort_index\<close> orders the rows by
  their label (the order of rows with equal labels is that of this sort; the claims
  below that depend on it take distinct labels). \<open>mean(axis=0)\<close> is taken column by
  column over the sorted rows; what pandas computes for one column, in floating point
  and with its treatment of missing values, is the parameter \<open>df_mean\<close>. The function
  is reached with at least one row.
\<close>

definition save_csv ::
  "(real option list \<Rightarrow> real option) \<Rightarrow> string list \<Rightarrow> real option list list \<Rightarrow> path
     \<Rightarrow> ('i::linorder) list \<Rightarrow> nat \<Rightarrow> exn + 'i report" where
  "save_csv df_mean metric_names data csv_path index levels =
     (let names = ''bpp'' # metric_names;
          cols = concat (map (\<lambda>n. map (\<lambda>l. n @ str_nat l) [0..<levels]) names)
      in if length data \<noteq> length index \<or> \<not> list_all (\<lambda>row. length row = length cols) data
         then Inl ValueError
         else
           (let df = sort_key fst (zip index data);
                mean_df = map (\<lambda>j. df_mean (map (\<lambda>r. snd r ! j) df)) [0..<length cols];
                full_df = map (\<lambda>r. (Img (fst r), snd r)) df @ [(Mean, mean_df)]
            in Inr \<lparr>csv_file = csv_path, columns = cols, rows = full_df,
                    float_format = ''%.5f''\<rparr>))"

text \<open>
  \<open>list(map(save_csv, data, csv_path, repeat(img_paths), repeat(levels)))\<close>: one
  call per codec, in order, as long as both lists last; an exception ends it and leaves
  the files written so far.
\<close>

fun map_save_csv ::
  "(real option list \<Rightarrow> real option) \<Rightarrow> string list \<Rightarrow> real option list list list \<Rightarrow> path list
     \<Rightarrow> ('i::linorder) list \<Rightarrow> nat \<Rightarrow> exn option \<times> 'i report list" where
  "map_save_csv df_mean metric_names (d # ds) (p # ps) index levels =
     (case save_csv df_mean metric_names d p index levels of
        Inl e \<Rightarrow> (Some e, [])
      | Inr r \<Rightarrow>
          (let (x, rs) = map_save_csv df_mean metric_names ds ps index levels in (x, r # rs)))"
| "map_save_csv df_mean metric_names ds ps index levels = (None, [])"

text \<open>
  The levels of a cell, and the entries that a cell contributes to an array: a list
  gives its floats, a float one entry, \<open>None\<close> one missing entry.
\<close>

fun levels_of :: "pyval \<Rightarrow> real list" where
  "levels_of (PList xs) = xs"
| "levels_of (PFloat x) = [x]"
| "levels_of PNone = []"

fun entries :: "pyval \<Rightarrow> real option list" where
  "entries (PList xs) = map Some xs"
| "entries (PFloat x) = [Some x]"
| "entries PNone = [None]"

fun is_levels :: "nat \<Rightarrow> pyval \<Rightarrow> bool" where
  "is_levels L (PList xs) = (length xs = L)"
| "is_levels L v = False"

fun is_float :: "pyval \<Rightarrow> bool" where
  "is_float (PFloat x) = True"
| "is_float v = False"

fun is_scalar :: "pyval \<Rightarrow> bool" where
  "is_scalar (PList xs) = False"
| "is_scalar v = True"

text \<open>
  \<open>bpps = np.array(list(map(list, bpps_proxy)))\<close> when it is an array with the three
  dimensions (codecs, images, levels) of the source's comment: there is a codec, an
  image, and every cell is a list of one common number of levels. For every other table
  with a codec the result is \<open>None\<close> and \<open>_save_out_analysis\<close> raises \<open>ValueError\<close>:
  \<open>np.array\<close> raises it for lists of different shapes (numpy 1.24 and later), and an
  array of fewer than three dimensions, as cells that are \<open>None\<close> or floats or a table
  without images give, passes \<open>np.array\<close> but then either a \<open>reshape\<close> of the metrics
  raises \<open>ValueError\<close> or \<open>np.concatenate\<close> along axis 2 does.
\<close>

definition bpps_array :: "pyval list list \<Rightarrow> real option list list list option" where
  "bpps_array bpps_proxy =
     (let L = length (levels_of (hd (hd bpps_proxy)))
      in if bpps_proxy \<noteq> [] \<and> hd bpps_proxy \<noteq> [] \<and>
            list_all (\<lambda>r. length r = length (hd bpps_proxy) \<and> list_all (is_levels L) r)
              bpps_proxy
         then Some (map (map entries) bpps_proxy)
         else None)"

text \<open>
  \<open>np.array(list(map(list, metrics_proxy.flat)))\<close>, as the list of its elements in
  row-major order. The lists of \<open>metrics_proxy\<close> give an array when they have one
  common length and their cells are all scalars (floats or \<open>None\<close>: with a \<open>None\<close> the
  array has the type \<open>object\<close>) or all lists of one common number of levels. For the
  other tables, lists of different shapes, the result is \<open>None\<close>. A table whose
  codecs do not have the same number of metric lists is no array of two dimensions
  and is given \<open>None\<close> as well.
\<close>

definition metrics_flat :: "pyval list list list \<Rightarrow> real option list option" where
  "metrics_flat metrics_proxy =
     (let lists = concat metrics_proxy;
          cells = concat lists
      in if list_all (\<lambda>c. length c = length (hd metrics_proxy)) metrics_proxy \<and>
            list_all (\<lambda>l. length l = length (hd lists)) lists \<and>
            (list_all is_scalar cells \<or>
             list_all (is_levels (length (levels_of (hd cells)))) cells)
         then Some (concat (map entries cells))
         else None)"

text \<open>\<open>r\<close> consecutive pieces of \<open>k\<close> elements.\<close>

definition split_into :: "nat \<Rightarrow> nat \<Rightarrow> 'a list \<Rightarrow> 'a list list" where
  "split_into r k xs = map (\<lambda>i. take k (drop (i * k) xs)) [0..<r]"

text \<open>
  \<open>reshape((c, m, n, -1))\<close> of an array with the elements \<open>flat\<close>: numpy raises
  \<open>ValueError\<close> when the product of the given dimensions is zero or does not divide
  the number of elements, and otherwise the last dimension is the quotient.
\<close>

definition reshape4 :: "nat \<Rightarrow> nat \<Rightarrow> nat \<Rightarrow> 'a list \<Rightarrow> exn + 'a list list list list" where
  "reshape4 c m n flat =
     (let known = c * m * n
      in if known = 0 \<or> length flat mod known \<noteq> 0 then Inl ValueError
         else
           (let last = length flat div known
            in Inr (split_into c m (split_into (c * m) n (split_into known last flat)))))"

text \<open>
  \<open>swapaxes(1, 2)\<close> and the \<open>reshape\<close> that merges metrics and levels, on an array
  with the dimensions (codecs, metrics, \<open>n\<close> images, levels): the row of an image is
  the levels of each metric, one metric after the other.
\<close>

definition merge_levels :: "nat \<Rightarrow> 'a list list list list \<Rightarrow> 'a list list list" where
  "merge_levels n metrics = map (\<lambda>ms. map (\<lambda>i. concat (map (\<lambda>m. m ! i) ms)) [0..<n]) metrics"

text \<open>
  \<open>np.concatenate((bpps, metrics), axis=2)\<close>: the row of an image is its size levels
  followed by its metric levels. The arrays must agree in codecs and images; both have
  \<open>len(bpps[0])\<close> images here.
\<close>

definition concatenate_axis2 :: "'a list list list \<Rightarrow> 'a list list list \<Rightarrow> exn + 'a list list list" where
  "concatenate_axis2 bpps metrics =
     (if length metrics \<noteq> length bpps then Inl ValueError
      else Inr (map (\<lambda>(b, ms). map (\<lambda>i. b ! i @ ms ! i) [0..<length b]) (zip bpps metrics)))"

text \<open>
  \<open>_save_out_analysis\<close>, with the names of \<open>Codecs\<close> and of \<open>Metrics\<close> as parameters.
  The result is the exception raised, if any, and the reports written. The steps are
  taken in the order of the source: the paths of the files, the array of the sizes,
  the array of the metrics, \<open>len(bpps[0])\<close>, the two \<open>reshape\<close>, \<open>np.concatenate\<close>,
  and \<open>save_csv\<close> for each codec. What becomes of metric lists of different shapes
  differs between the versions of numpy (\<open>ValueError\<close> from 1.24 on, an array of type
  \<open>object\<close> holding lists before) and is the parameter \<open>on_ragged\<close>.
\<close>

definition save_out_analysis ::
  "(real option list \<Rightarrow> real option)
     \<Rightarrow> (string list \<Rightarrow> path list \<Rightarrow> 'i list \<Rightarrow> pyval list list \<Rightarrow> pyval list list list
           \<Rightarrow> exn option \<times> ('i::linorder) report list)
     \<Rightarrow> string list \<Rightarrow> string list \<Rightarrow> 'i list \<Rightarrow> path option
     \<Rightarrow> pyval list list \<Rightarrow> pyval list list list \<Rightarrow> exn option \<times> 'i report list" where
  "save_out_analysis df_mean on_ragged Codecs metric_names img_paths folder bpps_proxy
       metrics_proxy =
     (case (if Codecs = [] then Inr []
            else (case folder of
                    None \<Rightarrow> Inl TypeError
                  | Some f \<Rightarrow>
                      Inr (map (\<lambda>s. truediv f (''_metrics_'' @ s @ ''.csv'')) Codecs))) of
        Inl e \<Rightarrow> (Some e, [])
      | Inr csv_path \<Rightarrow>
          (if bpps_proxy \<noteq> [] \<and> bpps_array bpps_proxy = None then (Some ValueError, [])
           else
             (case metrics_flat metrics_proxy of
                None \<Rightarrow> on_ragged metric_names csv_path img_paths bpps_proxy metrics_proxy
              | Some flat \<Rightarrow>
                  (case bpps_array bpps_proxy of
                     None \<Rightarrow> (Some IndexError, [])
                   | Some bpps \<Rightarrow>
                       (let levels = length (hd (hd bpps));
                            n = length (hd bpps)
                        in case reshape4 (length metrics_proxy) (length (hd metrics_proxy)) n
                                  flat of
                             Inl e \<Rightarrow> (Some e, [])
                           | Inr metrics \<Rightarrow>
                               (case concatenate_axis2 bpps (merge_levels n metrics) of
                                  Inl e \<Rightarrow> (Some e, [])
                                | Inr data \<Rightarrow>
                                    map_save_csv df_mean metric_names data csv_path img_paths
                                      levels))))))"

section \<open>Concrete inputs\<close>

text \<open>
  Collaborators and metrics for the concrete runs below: an \<open>ImgProc\<close> whose calls
  all succeed, one whose \<open>calc_metric\<close> raises for the metric of row 1, and one
  whose \<open>save_img\<close> raises.
\<close>

definition ip_ok :: "(unit, unit) imgproc" where
  "ip_ok = \<lparr>load_image = (\<lambda>p. Inr ()),
            calc_metric = (\<lambda>r d m. Inr (PFloat (30 + real (m_index m)))),
            save_img = (\<lambda>d p. None)\<rparr>"

definition ip_metric_fails :: "(unit, unit) imgproc" where
  "ip_metric_fails = \<lparr>load_image = (\<lambda>p. Inr ()),
            calc_metric = (\<lambda>r d m. if m_index m = 1 then Inl ValueError else Inr (PFloat 30)),
            save_img = (\<lambda>d p. None)\<rparr>"

definition ip_save_fails :: "(unit, unit) imgproc" where
  "ip_save_fails = \<lparr>load_image = (\<lambda>p. Inr ()),
            calc_metric = (\<lambda>r d m. Inr (PFloat (30 + real (m_index m)))),
            save_img = (\<lambda>d p. Some OSError)\<rparr>"

definition two_metrics :: "metric list" where
  "two_metrics = [\<lparr>m_index = 0, m_name = ''psnr''\<rparr>, \<lparr>m_index = 1, m_name = ''ssim''\<rparr>]"

text \<open>Six images of a test set, and the state of a test run.\<close>

definition six_paths :: "path list" where
  "six_paths = [[''db'', ''a.png''], [''db'', ''b.png''], [''db'', ''c.png''],
                [''db'', ''d.png''], [''db'', ''e.png''], [''db'', ''f.png'']]"

definition test_state :: state where
  "test_state = \<lparr>exec_mode = Exec_TEST, out_type = Out_RECONSTRUCTION\<rparr>"

definition every_job_returns :: "nat job \<Rightarrow> bool" where
  "every_job_returns j = True"

text \<open>
  A size estimate and an \<open>ImgProc\<close> that always succeed, with values that depend on
  the data of the image.
\<close>

definition estimate_by_data :: "nat \<Rightarrow> path \<Rightarrow> exn + pyval" where
  "estimate_by_data data path = Inr (PList [real data / 2])"

definition ip_by_data :: "(unit, nat) imgproc" where
  "ip_by_data = \<lparr>load_image = (\<lambda>p. Inr ()),
            calc_metric = (\<lambda>r d m. Inr (PFloat (10 * real d + real (m_index m)))),
            save_img = (\<lambda>d p. None)\<rparr>"

text \<open>
  Tables of two codecs, two images (listed \<open>b\<close> before \<open>a\<close>), two metrics and two
  levels, fully populated.
\<close>

definition two_paths :: "path list" where
  "two_paths = [[''db'', ''b.png''], [''db'', ''a.png'']]"

definition bpps_full :: "pyval list list" where
  "bpps_full = [[PList [1, 2], PList [3, 4]], [PList [5, 6], PList [7, 8]]]"

definition metrics_full :: "pyval list list list" where
  "metrics_full = [[[PList [30, 31], PList [32, 33]], [PList [40, 41], PList [42, 43]]],
                   [[PList [20, 21], PList [22, 23]], [PList [50, 51], PList [52, 53]]]]"

text \<open>
  Tables of one level with scalar metric values when only the learned codec was
  populated, and when the metric cell of the second image of the learned codec, the
  only codec, is missing.
\<close>

definition bpps_net_only :: "pyval list list" where
  "bpps_net_only = [[PList [1], PList [3]], [PNone, PNone]]"

definition metrics_net_only :: "pyval list list list" where
  "metrics_net_only = [[[PFloat 30, PFloat 32]], [[PNone, PNone]]]"

definition bpps_one_codec :: "pyval list list" where
  "bpps_one_codec = [[PList [1], PList [3]]]"

definition metrics_one_missing :: "pyval list list list" where
  "metrics_one_missing = [[[PFloat 30, PNone]]]"

section \<open>Auxiliary predicates\<close>

text \<open>
  The wait cannot end while the counter is at most 100 and the cell reads empty at
  every check from \<open>t\<close> on.
\<close>

definition stuck :: "(nat \<Rightarrow> pyval list) \<Rightarrow> nat \<Rightarrow> int \<Rightarrow> nat \<Rightarrow> bool" where
  "stuck bpp_at pos cont t \<longleftrightarrow>
     cont \<le> 100 \<and> (\<forall>k\<ge>t. pos < length (bpp_at k) \<and> \<not> truthy (bpp_at k ! pos))"

text \<open>The checks from \<open>t\<close> up to, not including, \<open>t'\<close> all read an empty cell.\<close>

definition seen :: "(nat \<Rightarrow> pyval list) \<Rightarrow> nat \<Rightarrow> nat \<Rightarrow> nat \<Rightarrow> bool" where
  "seen b p t t' \<longleftrightarrow>
     t \<le> t' \<and> (\<forall>k. t \<le> k \<and> k < t' \<longrightarrow> p < length (b k) \<and> \<not> truthy (b k ! p))"

fun wait_post :: "(nat \<Rightarrow> pyval list) \<Rightarrow> nat \<Rightarrow> nat \<Rightarrow> wait_result \<Rightarrow> bool" where
  "wait_post b p t (Ready t') = (seen b p t t' \<and> p < length (b t') \<and> truthy (b t' ! p))"
| "wait_post b p t (ReadRaised e t') = (seen b p t t' \<and> e = IndexError \<and> \<not> p < length (b t'))"
| "wait_post b p t (TimedOut t') = False"

text \<open>The images written, in order.\<close>

fun saved_paths :: "event list \<Rightarrow> path list" where
  "saved_paths [] = []"
| "saved_paths (SavedImg p # es) = p # saved_paths es"
| "saved_paths (e # es) = saved_paths es"

text \<open>
  One turn of the coordinator's loop as the specification words it: a memory
  reclamation when the index is a multiple of 5, one item taken from the queue, one job
  for each pool, both with the index and the path of the image.
\<close>

definition iteration :: "path option \<Rightarrow> nat \<Rightarrow> path \<Rightarrow> 'd \<Rightarrow> 'd action list" where
  "iteration out_folder i img item =
     (if i mod 5 = 0 then [GcCollect] else []) @
     [QueueGet item,
      ApplyAsync 0 (CalcBppUsingGzip item img i),
      ApplyAsync 1 (SaveImgsFromPatches img out_folder item i)]"

text \<open>The items taken from the queue, in order.\<close>

fun dequeued :: "'d action list \<Rightarrow> 'd list" where
  "dequeued [] = []"
| "dequeued (QueueGet x # as) = x # dequeued as"
| "dequeued (a # as) = dequeued as"

text \<open>
  The key of a job is its pool and its image index; the key of a cell is the pool
  that writes it and its image index.
\<close>

fun job_key :: "'d job \<Rightarrow> nat \<times> nat" where
  "job_key (CalcBppUsingGzip data path img_num) = (0, img_num)"
| "job_key (SaveImgsFromPatches path out_folder patches img_num) = (1, img_num)"

fun cell_key :: "cell \<Rightarrow> nat \<times> nat" where
  "cell_key (SizeCell c i) = (0, i)"
| "cell_key (MetricCell c k i) = (1, i)"

text \<open>
  The row of image \<open>i\<close> in the report of a codec with size list \<open>b\<close> and metric lists
  \<open>ms\<close>: the size levels, then the levels of each metric; a cell that is \<open>None\<close>
  gives a missing entry.
\<close>

definition data_row :: "pyval list \<Rightarrow> pyval list list \<Rightarrow> nat \<Rightarrow> real option list" where
  "data_row b ms i = entries (b ! i) @ concat (map (\<lambda>m. entries (m ! i)) ms)"

text \<open>
  Tables for \<open>N\<close> images and \<open>L\<close> levels. The size cells are populated when every
  size cell is a list of \<open>L\<close> levels. The metric cells are populated when every codec
  has \<open>M\<close> metric lists of \<open>N\<close> cells, all lists of \<open>L\<close> levels or, for one level, all
  floats. Scalar metric tables have \<open>M\<close> lists of \<open>N\<close> cells for every codec, each
  cell a float or still \<open>None\<close>.
\<close>

definition full_bpps :: "nat \<Rightarrow> nat \<Rightarrow> pyval list list \<Rightarrow> bool" where
  "full_bpps N L bpps_proxy =
     list_all (\<lambda>r. length r = N \<and> list_all (is_levels L) r) bpps_proxy"

definition full_metrics :: "nat \<Rightarrow> nat \<Rightarrow> nat \<Rightarrow> pyval list list list \<Rightarrow> bool" where
  "full_metrics M N L metrics_proxy =
     (list_all (\<lambda>c. length c = M \<and> list_all (\<lambda>r. length r = N) c) metrics_proxy \<and>
      (list_all (is_levels L) (concat (concat metrics_proxy)) \<or>
       (L = 1 \<and> list_all is_float (concat (concat metrics_proxy)))))"

definition scalar_metrics :: "nat \<Rightarrow> nat \<Rightarrow> pyval list list list \<Rightarrow> bool" where
  "scalar_metrics M N metrics_proxy =
     (list_all (\<lambda>c. length c = M \<and> list_all (\<lambda>r. length r = N) c) metrics_proxy \<and>
      list_all is_scalar (concat (concat metrics_proxy)))"

text \<open>Both kinds of metric tables that \<open>np.array\<close> turns into an array.\<close>

definition regular_metrics :: "nat \<Rightarrow> nat \<Rightarrow> nat \<Rightarrow> pyval list list list \<Rightarrow> bool" where
  "regular_metrics M N L metrics_proxy =
     (list_all (\<lambda>c. length c = M \<and> list_all (\<lambda>r. length r = N) c) metrics_proxy \<and>
      (list_all (is_levels L) (concat (concat metrics_proxy)) \<or>
       (L = 1 \<and> list_all is_scalar (concat (concat metrics_proxy)))))"

text \<open>
  The number that a string of decimal digits denotes, to state what \<open>str_nat\<close> writes.
\<close>

definition nat_of_digits :: "string \<Rightarrow> nat" where
  "nat_of_digits s = foldl (\<lambda>a c. 10 * a + (of_char c - 48)) 0 s"

text \<open>
  Modelled from the spec: the values that the job of the first pool stores in a size
  cell. Its code, \<open>ImgProc.calc_bpp_using_gzip\<close>, is not among the sources. By the
  data model of the spec a written size cell is a numeric array with one entry per
  quality level, and the report builder and the plot index the cell as such a sequence;
  there is at least one level.
\<close>

definition size_value :: "pyval \<Rightarrow> bool" where
  "size_value v = (case v of PList xs \<Rightarrow> xs \<noteq> [] | PFloat x \<Rightarrow> False | PNone \<Rightarrow> False)"

text \<open>
  The values that the jobs of a list compute for a cell: \<open>v\<close> is a value of metric row
  \<open>k\<close> for image \<open>i\<close> when a job of the second pool for index \<open>i\<close> loads its image and
  \<open>calc_metric\<close> returns \<open>v\<close> for a metric of that row; \<open>v\<close> is a size value for image
  \<open>i\<close> when a job of the first pool for index \<open>i\<close> estimates \<open>v\<close>.
\<close>

definition metric_stored ::
  "('img, 'd) imgproc \<Rightarrow> metric list \<Rightarrow> 'd job list \<Rightarrow> nat \<Rightarrow> nat \<Rightarrow> pyval \<Rightarrow> bool" where
  "metric_stored ip Metrics js k i v \<longleftrightarrow>
     (\<exists>path out patches r mt.
        SaveImgsFromPatches path out patches i \<in> set js \<and> load_image ip path = Inr r \<and>
        mt \<in> set Metrics \<and> m_index mt = k \<and> calc_metric ip r patches mt = Inr v)"

definition size_stored ::
  "('d \<Rightarrow> path \<Rightarrow> exn + pyval) \<Rightarrow> 'd job list \<Rightarrow> nat \<Rightarrow> pyval \<Rightarrow> bool" where
  "size_stored estimate js i v \<longleftrightarrow>
     (\<exists>data path. CalcBppUsingGzip data path i \<in> set js \<and> estimate data path = Inr v)"

text \<open>
  What running the jobs \<open>js\<close> from the tables \<open>T\<close> to the tables \<open>T'\<close> has done, with
  \<open>ws\<close> the cells written on the way: each cell of \<open>ws\<close> once, each by a job of its key,
  each holding the value that job computed for it, and every other cell as it was.
\<close>

definition run_effect ::
  "('img, 'd) imgproc \<Rightarrow> ('d \<Rightarrow> path \<Rightarrow> exn + pyval) \<Rightarrow> metric list \<Rightarrow> nat \<Rightarrow> 'd job list
     \<Rightarrow> tables \<Rightarrow> tables \<Rightarrow> cell list \<Rightarrow> bool" where
  "run_effect ip estimate Metrics net js T T' ws \<longleftrightarrow>
     written T' = written T @ ws \<and> distinct ws \<and> cell_key ` set ws \<subseteq> job_key ` set js \<and>
     (\<forall>c k i. MetricCell c k i \<in> set ws \<longrightarrow>
        c = net \<and> metric_stored ip Metrics js k i (metrics_net T' ! k ! i)) \<and>
     (\<forall>k i. MetricCell net k i \<notin> set ws \<longrightarrow> metrics_net T' ! k ! i = metrics_net T ! k ! i) \<and>
     (\<forall>c i. SizeCell c i \<in> set ws \<longrightarrow> c = net \<and> size_stored estimate js i (bpp_net T' ! i)) \<and>
     (\<forall>i. SizeCell net i \<notin> set ws \<longrightarrow> bpp_net T' ! i = bpp_net T ! i)"

section \<open>The wait on the size cell\<close>

lemma stuck_Suc: "stuck bpp_at pos cont t \<Longrightarrow> stuck bpp_at pos cont (Suc t)"
  by (simp add: stuck_def)

lemma wait_loop_stuck_aux:
  assumes "wait_loop bpp_at pos cont t = Some r"
  shows "\<not> stuck bpp_at pos cont t"
proof (rule wait_loop.raw_induct[where P = "\<lambda>b p c t r. \<not> stuck b p c t", OF _ assms])
  fix wl :: "(nat \<Rightarrow> pyval list) \<Rightarrow> nat \<Rightarrow> int \<Rightarrow> nat \<Rightarrow> wait_result option"
  fix b p c t r
  assume IH: "\<And>b p c t r. wl b p c t = Some r \<Longrightarrow> \<not> stuck b p c t"
  assume body: "(if \<not> p < length (b t) then Some (ReadRaised IndexError t)
      else if truthy (b t ! p) then Some (Ready t)
      else if c > 100 then Some (TimedOut (Suc t))
      else wl b p c (Suc t)) = Some r"
  show "\<not> stuck b p c t"
  proof
    assume h: "stuck b p c t"
    then have "p < length (b t)" "\<not> truthy (b t ! p)" "\<not> c > 100"
      by (auto simp: stuck_def)
    with body have "wl b p c (Suc t) = Some r"
      by simp
    from IH[OF this] stuck_Suc[OF h] show False ..
  qed
qed

lemma wait_loop_never:
  assumes "stuck bpp_at pos cont t"
  shows "wait_loop bpp_at pos cont t = None"
proof (cases "wait_loop bpp_at pos cont t")
  case None
  then show ?thesis .
next
  case (Some r)
  from wait_loop_stuck_aux[OF Some] assms show ?thesis by blast
qed

lemma seen_refl: "seen b p t t"
  by (auto simp: seen_def)

lemma seen_step:
  "p < length (b t) \<Longrightarrow> \<not> truthy (b t ! p) \<Longrightarrow> seen b p (Suc t) t' \<Longrightarrow> seen b p t t'"
  unfolding seen_def by (metis Suc_leD Suc_leI le_neq_implies_less)

lemma wait_post_step:
  "p < length (b t) \<Longrightarrow> \<not> truthy (b t ! p) \<Longrightarrow> wait_post b p (Suc t) r \<Longrightarrow> wait_post b p t r"
  by (cases r) (auto intro: seen_step)

lemma wait_loop_post:
  assumes "wait_loop bpp_at pos cont t = Some r"
  shows "cont \<le> 100 \<longrightarrow> wait_post bpp_at pos t r"
proof (rule wait_loop.raw_induct[where P = "\<lambda>b p c t r. c \<le> 100 \<longrightarrow> wait_post b p t r", OF _ assms])
  fix wl :: "(nat \<Rightarrow> pyval list) \<Rightarrow> nat \<Rightarrow> int \<Rightarrow> nat \<Rightarrow> wait_result option"
  fix b p c t r
  assume IH: "\<And>b p c t r. wl b p c t = Some r \<Longrightarrow> c \<le> 100 \<longrightarrow> wait_post b p t r"
  assume body: "(if \<not> p < length (b t) then Some (ReadRaised IndexError t)
      else if truthy (b t ! p) then Some (Ready t)
      else if c > 100 then Some (TimedOut (Suc t))
      else wl b p c (Suc t)) = Some r"
  show "c \<le> 100 \<longrightarrow> wait_post b p t r"
  proof
    assume c: "c \<le> 100"
    show "wait_post b p t r"
    proof (cases "p < length (b t)")
      case False
      with body show ?thesis by (auto simp: seen_refl)
    next
      case inr: True
      show ?thesis
      proof (cases "truthy (b t ! p)")
        case True
        with inr body show ?thesis by (auto simp: seen_refl)
      next
        case False
        with inr c body have "wl b p c (Suc t) = Some r" by simp
        from IH[OF this] c have "wait_post b p (Suc t) r" by simp
        with inr False show ?thesis by (rule wait_post_step)
      qed
    qed
  qed
qed

lemma wait_loop_ready:
  assumes "seen b p t t'" "p < length (b t')" "truthy (b t' ! p)" "c \<le> 100"
  shows "wait_loop b p c t = Some (Ready t')"
  using assms
proof (induction "t' - t" arbitrary: t)
  case 0
  then have "t = t'" by (simp add: seen_def)
  with 0 show ?case by (subst wait_loop.simps) simp
next
  case (Suc n)
  then have lt: "t < t'" by simp
  with Suc.prems have now: "p < length (b t)" "\<not> truthy (b t ! p)"
    by (auto simp: seen_def)
  have "seen b p (Suc t) t'" using Suc.prems lt by (auto simp: seen_def)
  moreover have "n = t' - Suc t" using Suc.hyps by simp
  ultimately have "wait_loop b p c (Suc t) = Some (Ready t')"
    using Suc.hyps(1) Suc.prems by blast
  with now Suc.prems show ?case by (subst wait_loop.simps) simp
qed

text \<open>The first check at which the cell reads non-empty, when there is one.\<close>

lemma first_truthy:
  fixes b :: "nat \<Rightarrow> pyval list"
  assumes "truthy (b w ! p)"
  shows "\<exists>t\<le>w. truthy (b t ! p) \<and> (\<forall>k<t. \<not> truthy (b k ! p))"
proof -
  define t where "t = (LEAST k. truthy (b k ! p))"
  have "truthy (b t ! p)"
    unfolding t_def using LeastI[of "\<lambda>k. truthy (b k ! p)" w] assms by simp
  moreover have "t \<le> w"
    unfolding t_def using Least_le[of "\<lambda>k. truthy (b k ! p)" w] assms by simp
  moreover have "\<forall>k<t. \<not> truthy (b k ! p)"
    unfolding t_def using not_less_Least[of _ "\<lambda>k. truthy (b k ! p)"] by blast
  ultimately show ?thesis by blast
qed

section \<open>The loop over the metrics\<close>

lemma store_metric_Inr:
  "store_metric t k pos v = Inr t' \<Longrightarrow>
     k < length t \<and> pos < length (t ! k) \<and> t' = t[k := (t ! k)[pos := v]]"
  by (auto simp: store_metric_def getitem_def setitem_def split: if_splits)

lemma metrics_loop_events:
  "metrics_loop ip r d pos ms s = (x, s') \<Longrightarrow>
     \<exists>es. evs s' = evs s @ es \<and> (\<forall>e\<in>set es. \<exists>k v. e = WroteMetric k pos v)"
proof (induction ms arbitrary: s)
  case Nil
  then show ?case by simp
next
  case (Cons m ms)
  show ?case
  proof (cases "calc_metric ip r d m")
    case (Inl e)
    with Cons.prems show ?thesis by simp
  next
    case (Inr v)
    show ?thesis
    proof (cases "store_metric (tbl s) (m_index m) pos v")
      case (Inl e)
      with Inr Cons.prems show ?thesis by simp
    next
      case t: (Inr t)
      let ?s1 = "emit (WroteMetric (m_index m) pos v) (s\<lparr>tbl := t\<rparr>)"
      from Cons.prems Inr t have "metrics_loop ip r d pos ms ?s1 = (x, s')" by simp
      from Cons.IH[OF this] obtain es where
        "evs s' = evs ?s1 @ es" "\<forall>e\<in>set es. \<exists>k v. e = WroteMetric k pos v" by blast
      then have "evs s' = evs s @ (WroteMetric (m_index m) pos v # es)"
        "\<forall>e\<in>set (WroteMetric (m_index m) pos v # es). \<exists>k v. e = WroteMetric k pos v"
        by (auto simp: emit_def)
      then show ?thesis by blast
    qed
  qed
qed

lemma metrics_loop_shape:
  "metrics_loop ip r d pos ms s = (x, s') \<Longrightarrow>
     length (tbl s') = length (tbl s) \<and> (\<forall>k. length (tbl s' ! k) = length (tbl s ! k))
     \<and> (\<forall>k. k \<notin> m_index ` set ms \<longrightarrow> tbl s' ! k = tbl s ! k)
     \<and> (\<forall>k p. p \<noteq> pos \<longrightarrow> tbl s' ! k ! p = tbl s ! k ! p)"
proof (induction ms arbitrary: s)
  case Nil
  then show ?case by simp
next
  case (Cons m ms)
  show ?case
  proof (cases "calc_metric ip r d m")
    case (Inl e)
    with Cons.prems show ?thesis by simp
  next
    case (Inr v)
    show ?thesis
    proof (cases "store_metric (tbl s) (m_index m) pos v")
      case (Inl e)
      with Inr Cons.prems show ?thesis by simp
    next
      case t: (Inr t)
      let ?s1 = "emit (WroteMetric (m_index m) pos v) (s\<lparr>tbl := t\<rparr>)"
      from store_metric_Inr[OF t] have t_eq: "m_index m < length (tbl s)"
        "pos < length (tbl s ! m_index m)" "t = (tbl s)[m_index m := (tbl s ! m_index m)[pos := v]]"
        by auto
      have tbl1: "tbl ?s1 = t" by (simp add: emit_def)
      from Cons.prems Inr t have "metrics_loop ip r d pos ms ?s1 = (x, s')" by simp
      from Cons.IH[OF this] have IH: "length (tbl s') = length t"
        "\<And>k. length (tbl s' ! k) = length (t ! k)"
        "\<And>k. k \<notin> m_index ` set ms \<Longrightarrow> tbl s' ! k = t ! k"
        "\<And>k p. p \<noteq> pos \<Longrightarrow> tbl s' ! k ! p = t ! k ! p"
        unfolding tbl1 by auto
      have a: "length (tbl s') = length (tbl s)" using IH(1) t_eq by simp
      have b: "length (tbl s' ! k) = length (tbl s ! k)" for k
        using IH(2)[of k] t_eq by (cases "k = m_index m") auto
      have c: "tbl s' ! k = tbl s ! k" if "k \<notin> m_index ` set (m # ms)" for k
        using IH(3)[of k] that t_eq by auto
      have d: "tbl s' ! k ! p = tbl s ! k ! p" if "p \<noteq> pos" for k p
        using IH(4)[OF that, of k] that t_eq by (cases "k = m_index m") auto
      from a b c d show ?thesis by blast
    qed
  qed
qed

lemma metrics_loop_cells:
  "metrics_loop ip r d pos ms s = (None, s') \<Longrightarrow> m \<in> set ms \<Longrightarrow>
     m_index m < length (tbl s') \<and> pos < length (tbl s' ! m_index m) \<and>
     (\<exists>m'\<in>set ms. m_index m' = m_index m \<and>
        calc_metric ip r d m' = Inr (tbl s' ! m_index m ! pos))"
proof (induction ms arbitrary: s m)
  case Nil
  then show ?case by simp
next
  case (Cons a ms)
  show ?case
  proof (cases "calc_metric ip r d a")
    case (Inl e)
    with Cons.prems show ?thesis by simp
  next
    case (Inr v)
    show ?thesis
    proof (cases "store_metric (tbl s) (m_index a) pos v")
      case (Inl e)
      with Inr Cons.prems show ?thesis by simp
    next
      case t: (Inr t)
      let ?s1 = "emit (WroteMetric (m_index a) pos v) (s\<lparr>tbl := t\<rparr>)"
      from store_metric_Inr[OF t] have t_eq: "m_index a < length (tbl s)"
        "pos < length (tbl s ! m_index a)" "t = (tbl s)[m_index a := (tbl s ! m_index a)[pos := v]]"
        by auto
      have tbl1: "tbl ?s1 = t" by (simp add: emit_def)
      from Cons.prems Inr t have run: "metrics_loop ip r d pos ms ?s1 = (None, s')" by simp
      note sh = metrics_loop_shape[OF run, unfolded tbl1]
      show ?thesis
      proof (cases "m_index m \<in> m_index ` set ms")
        case True
        then obtain m0 where m0: "m0 \<in> set ms" "m_index m0 = m_index m" by auto
        from Cons.IH[OF run m0(1)] m0(2) show ?thesis by auto
      next
        case False
        with Cons.prems(2) have ma: "m_index m = m_index a" by auto
        from False sh have "tbl s' ! m_index m = t ! m_index m" by blast
        with ma t_eq have cellv: "tbl s' ! m_index m ! pos = v" by simp
        have "m_index m < length (tbl s')" using sh t_eq ma by simp
        moreover have "pos < length (tbl s' ! m_index m)" using sh t_eq ma by simp
        ultimately show ?thesis using cellv Inr ma by auto
      qed
    qed
  qed
qed

section \<open>The reconstruction job\<close>

lemma saved_paths_append: "saved_paths (xs @ ys) = saved_paths xs @ saved_paths ys"
  by (induction xs rule: saved_paths.induct) auto

lemma saved_paths_replicate_Sleep: "saved_paths (replicate n Sleep) = []"
  by (induction n) auto

lemma saved_paths_writes:
  "(\<forall>e\<in>set es. \<exists>k v. e = WroteMetric k pos v) \<Longrightarrow> saved_paths es = []"
  by (induction es rule: saved_paths.induct) auto

lemma metrics_phase_events:
  assumes "metrics_phase ip Metrics orig_path patches metrics_proxy pos = (x, s1)"
  shows "saved_paths (evs s1) = [] \<and> (\<forall>e. PrintExc e \<notin> set (evs s1))"
proof (cases "load_image ip orig_path")
  case (Inl e)
  with assms show ?thesis by (auto simp: metrics_phase_def)
next
  case (Inr r)
  with assms have "metrics_loop ip r patches pos Metrics \<lparr>tbl = metrics_proxy, evs = []\<rparr> = (x, s1)"
    by (simp add: metrics_phase_def)
  from metrics_loop_events[OF this] obtain es where
    es: "evs s1 = es" "\<forall>e\<in>set es. \<exists>k v. e = WroteMetric k pos v" by auto
  from saved_paths_writes[OF es(2)] es show ?thesis by auto
qed

lemma job_never_returns:
  assumes "metrics_phase ip Metrics orig_path patches metrics_proxy pos = (None, s1)"
    and "stuck bpp_at pos 0 0"
  shows "save_imgs_from_patches ip Metrics bpp_at orig_path save_folder patches metrics_proxy pos = None"
  using assms wait_loop_never[OF assms(2)]
  by (simp add: save_imgs_from_patches_def wait_and_save_def)

lemma stuck_unchanged:
  "pos < length xs \<Longrightarrow> \<not> truthy (xs ! pos) \<Longrightarrow> stuck (unchanged xs) pos 0 t"
  by (simp add: stuck_def unchanged_def)

text \<open>
  Claim C1. The wait is meant to end after the retry ceiling with a timeout message.
  It does not: the counter stays at 0, so with a size cell that is never written the job
  sleeps for ever and never returns, here for one image and two metrics.
\<close>

theorem wait_never_times_out:
  "save_imgs_from_patches ip_ok two_metrics (unchanged [PNone]) [''db'', ''img0.jpg'']
     (Some [''out'', ''test'']) () [[PNone], [PNone]] 0 = None"
proof -
  have "metrics_phase ip_ok two_metrics [''db'', ''img0.jpg''] () [[PNone], [PNone]] 0
          = (None, \<lparr>tbl = [[PFloat 30], [PFloat 31]],
                     evs = [WroteMetric 0 0 (PFloat 30), WroteMetric 1 0 (PFloat 31)]\<rparr>)"
    by (simp add: metrics_phase_def ip_ok_def two_metrics_def store_metric_def getitem_def
        setitem_def emit_def)
  moreover have "stuck (unchanged [PNone]) 0 0 0"
    by (rule stuck_unchanged) simp_all
  ultimately show ?thesis by (rule job_never_returns)
qed

section \<open>The emptiness test\<close>

lemma falsy_iff: "\<not> truthy v \<longleftrightarrow> v = PNone \<or> v = PFloat 0 \<or> v = PList []"
  by (cases v) auto

lemma wait_loop_now:
  assumes "pos < length (bpp_at t)"
  shows "(wait_loop bpp_at pos cont t = Some (Ready t)) = truthy (bpp_at t ! pos)"
proof (cases "truthy (bpp_at t ! pos)")
  case True
  with assms show ?thesis by (subst wait_loop.simps) simp
next
  case False
  have "wait_loop bpp_at pos cont t \<noteq> Some (Ready t)"
  proof (cases "cont > 100")
    case True
    with False assms show ?thesis by (subst wait_loop.simps) simp
  next
    case c: False
    show ?thesis
    proof
      assume "wait_loop bpp_at pos cont t = Some (Ready t)"
      from wait_loop_post[OF this] c have "truthy (bpp_at t ! pos)" by simp
      with False show False ..
    qed
  qed
  with False show ?thesis by simp
qed

lemma initial_cells:
  "i < n_codecs \<Longrightarrow> pos < var_len \<Longrightarrow>
     fst (instantiate_shared_variables n_codecs n_metrics var_len) ! i ! pos = PNone"
  by (simp add: instantiate_shared_variables_def)

lemma initial_metric_cells:
  "i < n_codecs \<Longrightarrow> k < n_metrics \<Longrightarrow> pos < var_len \<Longrightarrow>
     snd (instantiate_shared_variables n_codecs n_metrics var_len) ! i ! k ! pos = PNone"
  by (simp add: instantiate_shared_variables_def)

lemma size_value_truthy: "size_value v \<Longrightarrow> truthy v \<and> v \<noteq> PNone"
  by (cases v) (auto simp: size_value_def)

text \<open>
  Claim C2. Every cell of the size lists and of the metric lists starts as \<open>None\<close>,
  which no written size value equals. At a check where the index is in range, a cell
  that holds a written size value, whatever numbers it holds, zeros included, sends the
  wait on to the success path at once, and a cell that still holds \<open>None\<close> does not: of
  the states that a size cell can be in, the test treats the unwritten one as empty and
  only that one.
\<close>

theorem sentinel_distinguished_from_written_values:
  "(i < n_codecs \<and> pos < var_len \<longrightarrow>
      fst (instantiate_shared_variables n_codecs n_metrics var_len) ! i ! pos = PNone) \<and>
   (i < n_codecs \<and> k < n_metrics \<and> pos < var_len \<longrightarrow>
      snd (instantiate_shared_variables n_codecs n_metrics var_len) ! i ! k ! pos = PNone) \<and>
   (size_value v \<longrightarrow> v \<noteq> PNone) \<and>
   (pos < length (bpp_at t) \<and> size_value (bpp_at t ! pos) \<longrightarrow>
      wait_loop bpp_at pos cont t = Some (Ready t)) \<and>
   (pos < length (bpp_at t) \<and> bpp_at t ! pos = PNone \<longrightarrow>
      wait_loop bpp_at pos cont t \<noteq> Some (Ready t)) \<and>
   (pos < length (bpp_at t) \<and> (bpp_at t ! pos = PNone \<or> size_value (bpp_at t ! pos)) \<longrightarrow>
      (wait_loop bpp_at pos cont t = Some (Ready t)) = (bpp_at t ! pos \<noteq> PNone))"
  using wait_loop_now[of pos bpp_at t cont] size_value_truthy[of "bpp_at t ! pos"]
    size_value_truthy[of v] initial_cells[of i n_codecs pos var_len n_metrics]
    initial_metric_cells[of i n_codecs k n_metrics pos var_len]
  by auto

text \<open>
  Claim C2 at tables for two codecs, two metrics and three images: the initial cells
  read empty, and a size cell holding the one level \<open>0.0\<close> reads written.
\<close>

theorem sentinel_distinguished_from_written_values_witness:
  "fst (instantiate_shared_variables 2 2 3) ! 0 ! 1 = PNone \<and>
   snd (instantiate_shared_variables 2 2 3) ! 0 ! 1 ! 1 = PNone \<and>
   size_value (PList [0]) \<and> PList [0] \<noteq> PNone \<and>
   wait_loop (unchanged (fst (instantiate_shared_variables 2 2 3) ! 0)) 1 0 0 \<noteq> Some (Ready 0) \<and>
   wait_loop (unchanged [PNone, PList [0], PNone]) 1 0 0 = Some (Ready 0)"
  using sentinel_distinguished_from_written_values[of 0 2 1 3 2 1 "PList [0]"
      "unchanged (fst (instantiate_shared_variables 2 2 3) ! 0)" 0 0]
    sentinel_distinguished_from_written_values[of 0 2 1 3 2 1 "PList [0]"
      "unchanged [PNone, PList [0], PNone]" 0 0]
  by (simp add: unchanged_def size_value_def instantiate_shared_variables_def)

section \<open>The image is written once, after the wait\<close>

lemma evs_sleeps: "evs (sleeps t s) = evs s @ replicate t Sleep" "tbl (sleeps t s) = tbl s"
  by (simp_all add: sleeps_def)

lemma evs_emit: "evs (emit e s) = evs s @ [e]" "tbl (emit e s) = tbl s"
  by (simp_all add: emit_def)

lemma evs_handler: "evs (handler e s) = evs s @ [PrintExc e]" "tbl (handler e s) = tbl s"
  by (simp_all add: handler_def emit_def)

text \<open>What a returning second part has done: one of two shapes.\<close>

lemma wait_and_save_cases:
  assumes "wait_and_save ip bpp_at orig_path save_folder patches pos s1 = Some s"
  shows "tbl s = tbl s1 \<and>
    ((\<exists>t e. evs s = evs s1 @ replicate t Sleep @ [PrintExc e]) \<or>
     (\<exists>t folder. wait_loop bpp_at pos 0 0 = Some (Ready t) \<and> pos < length (bpp_at t) \<and>
        truthy (bpp_at t ! pos) \<and> save_folder = Some folder \<and>
        save_img ip patches (truediv folder (stem orig_path @ ''.png'')) = None \<and>
        evs s = evs s1 @ replicate t Sleep @ [SavedImg (truediv folder (stem orig_path @ ''.png''))]))"
proof (cases "wait_loop bpp_at pos 0 0")
  case None
  with assms show ?thesis by (simp add: wait_and_save_def)
next
  case (Some r)
  from wait_loop_post[OF Some] have post: "wait_post bpp_at pos 0 r" by simp
  show ?thesis
  proof (cases r)
    case (TimedOut t)
    with post show ?thesis by simp
  next
    case (ReadRaised e t)
    with Some assms show ?thesis
      by (auto simp: wait_and_save_def evs_handler evs_sleeps)
  next
    case (Ready t)
    with post have obs: "pos < length (bpp_at t)" "truthy (bpp_at t ! pos)" by auto
    show ?thesis
    proof (cases save_folder)
      case None
      with Some Ready assms show ?thesis
        by (auto simp: wait_and_save_def get_out_pathname_def evs_handler evs_sleeps)
    next
      case (Some folder)
      note folder = this
      show ?thesis
      proof (cases "save_img ip patches (truediv folder (stem orig_path @ ''.png''))")
        case None
        with \<open>wait_loop bpp_at pos 0 0 = Some r\<close> Ready folder assms obs show ?thesis
          by (auto simp: wait_and_save_def get_out_pathname_def evs_emit evs_sleeps)
      next
        case (Some e)
        with \<open>wait_loop bpp_at pos 0 0 = Some r\<close> Ready folder assms show ?thesis
          by (auto simp: wait_and_save_def get_out_pathname_def evs_handler evs_sleeps)
      qed
    qed
  qed
qed

lemma job_Some_cases:
  assumes "save_imgs_from_patches ip Metrics bpp_at orig_path save_folder patches metrics_proxy pos = Some s"
  obtains (raised) e s1 where
      "metrics_phase ip Metrics orig_path patches metrics_proxy pos = (Some e, s1)"
      "s = handler e s1"
  | (waited) s1 where
      "metrics_phase ip Metrics orig_path patches metrics_proxy pos = (None, s1)"
      "wait_and_save ip bpp_at orig_path save_folder patches pos s1 = Some s"
  using assms
  by (cases "metrics_phase ip Metrics orig_path patches metrics_proxy pos")
     (auto simp: save_imgs_from_patches_def split: option.splits)

lemma saved_paths_snoc_exc: "saved_paths (es @ replicate t Sleep @ [PrintExc e]) = saved_paths es"
  by (simp add: saved_paths_append saved_paths_replicate_Sleep)

lemma saved_paths_snoc_saved:
  "saved_paths (es @ replicate t Sleep @ [SavedImg p]) = saved_paths es @ [p]"
  by (simp add: saved_paths_append saved_paths_replicate_Sleep)

text \<open>
  Claim C3. First part: whenever the job returns having written an image, the metrics
  were done, the wait ended on a check that read the size cell non-empty, the image was
  written after the sleeps of that wait and as the last act, it is the only image
  written, and its name is the stem of the original with \<open>.png\<close> under the output
  folder. Second part: when loading and the metrics raise nothing, the index is in
  range, the cell first reads non-empty at check \<open>w\<close> (any \<open>w\<close>, so also within the first
  hundred), and the write succeeds, the job returns with exactly that one image written.
\<close>

theorem image_saved_once_after_wait:
  "(save_imgs_from_patches ip Metrics bpp_at orig_path save_folder patches metrics_proxy pos = Some s
      \<and> saved_paths (evs s) \<noteq> [] \<longrightarrow>
      (\<exists>t folder s1.
         metrics_phase ip Metrics orig_path patches metrics_proxy pos = (None, s1) \<and>
         wait_loop bpp_at pos 0 0 = Some (Ready t) \<and> truthy (bpp_at t ! pos) \<and>
         save_folder = Some folder \<and>
         evs s = evs s1 @ replicate t Sleep @ [SavedImg (truediv folder (stem orig_path @ ''.png''))] \<and>
         saved_paths (evs s) = [truediv folder (stem orig_path @ ''.png'')])) \<and>
   (metrics_phase ip Metrics orig_path patches metrics_proxy pos = (None, s0) \<and>
    (\<forall>k\<le>w. pos < length (bpp_at k)) \<and> (\<forall>k<w. \<not> truthy (bpp_at k ! pos)) \<and>
    truthy (bpp_at w ! pos) \<and> save_folder = Some out \<and>
    save_img ip patches (truediv out (stem orig_path @ ''.png'')) = None \<longrightarrow>
      save_imgs_from_patches ip Metrics bpp_at orig_path save_folder patches metrics_proxy pos =
        Some \<lparr>tbl = tbl s0,
              evs = evs s0 @ replicate w Sleep @ [SavedImg (truediv out (stem orig_path @ ''.png''))]\<rparr>
      \<and> saved_paths (evs s0 @ replicate w Sleep @ [SavedImg (truediv out (stem orig_path @ ''.png''))])
          = [truediv out (stem orig_path @ ''.png'')])"
proof (intro conjI impI)
  assume a: "save_imgs_from_patches ip Metrics bpp_at orig_path save_folder patches metrics_proxy pos = Some s
      \<and> saved_paths (evs s) \<noteq> []"
  then have job: "save_imgs_from_patches ip Metrics bpp_at orig_path save_folder patches metrics_proxy pos = Some s"
    and sv: "saved_paths (evs s) \<noteq> []" by auto
  from job show "\<exists>t folder s1.
         metrics_phase ip Metrics orig_path patches metrics_proxy pos = (None, s1) \<and>
         wait_loop bpp_at pos 0 0 = Some (Ready t) \<and> truthy (bpp_at t ! pos) \<and>
         save_folder = Some folder \<and>
         evs s = evs s1 @ replicate t Sleep @ [SavedImg (truediv folder (stem orig_path @ ''.png''))] \<and>
         saved_paths (evs s) = [truediv folder (stem orig_path @ ''.png'')]"
  proof (cases rule: job_Some_cases)
    case (raised e s1)
    from metrics_phase_events[OF raised(1)] raised(2) sv show ?thesis
      by (simp add: evs_handler saved_paths_append)
  next
    case (waited s1)
    from metrics_phase_events[OF waited(1)] have none: "saved_paths (evs s1) = []" by simp
    from wait_and_save_cases[OF waited(2)] consider
      (exc) t e where "evs s = evs s1 @ replicate t Sleep @ [PrintExc e]"
    | (saved) t folder where "wait_loop bpp_at pos 0 0 = Some (Ready t)"
        "truthy (bpp_at t ! pos)" "save_folder = Some folder"
        "evs s = evs s1 @ replicate t Sleep @ [SavedImg (truediv folder (stem orig_path @ ''.png''))]"
      by blast
    then show ?thesis
    proof cases
      case exc
      with none sv show ?thesis by (simp add: saved_paths_snoc_exc)
    next
      case saved
      with none waited(1) show ?thesis by (auto simp: saved_paths_snoc_saved)
    qed
  qed
next
  assume b: "metrics_phase ip Metrics orig_path patches metrics_proxy pos = (None, s0) \<and>
    (\<forall>k\<le>w. pos < length (bpp_at k)) \<and> (\<forall>k<w. \<not> truthy (bpp_at k ! pos)) \<and>
    truthy (bpp_at w ! pos) \<and> save_folder = Some out \<and>
    save_img ip patches (truediv out (stem orig_path @ ''.png'')) = None"
  then have "seen bpp_at pos 0 w" by (auto simp: seen_def)
  with b have "wait_loop bpp_at pos 0 0 = Some (Ready w)"
    by (intro wait_loop_ready) auto
  with b show "save_imgs_from_patches ip Metrics bpp_at orig_path save_folder patches metrics_proxy pos =
        Some \<lparr>tbl = tbl s0,
              evs = evs s0 @ replicate w Sleep @ [SavedImg (truediv out (stem orig_path @ ''.png''))]\<rparr>"
    by (simp add: save_imgs_from_patches_def wait_and_save_def get_out_pathname_def emit_def sleeps_def)
  from b metrics_phase_events[of ip Metrics orig_path patches metrics_proxy pos None s0]
  show "saved_paths (evs s0 @ replicate w Sleep @ [SavedImg (truediv out (stem orig_path @ ''.png''))])
          = [truediv out (stem orig_path @ ''.png'')]"
    by (simp add: saved_paths_snoc_saved)
qed

lemma stem_img1: "stem [''db'', ''img1.jpg''] = ''img1''"
  by (simp add: stem_def name_of_def)

lemma phase_ok_pos1:
  "metrics_phase ip_ok two_metrics [''db'', ''img1.jpg''] () [[PNone, PNone], [PNone, PNone]] 1
     = (None, \<lparr>tbl = [[PNone, PFloat 30], [PNone, PFloat 31]],
               evs = [WroteMetric 0 1 (PFloat 30), WroteMetric 1 1 (PFloat 31)]\<rparr>)"
  by (simp add: metrics_phase_def ip_ok_def two_metrics_def store_metric_def getitem_def
      setitem_def emit_def)

text \<open>
  Claim C3 at a concrete run: image 1 of two, two metrics, the size cell written just
  before the fourth check. The job sleeps three times and then writes
  \<open>out/test/img1.png\<close>, once.
\<close>

theorem image_saved_once_after_wait_witness:
  "save_imgs_from_patches ip_ok two_metrics (written_at 3 [PNone, PNone] 1 (PList [1 / 2]))
     [''db'', ''img1.jpg''] (Some [''out'', ''test'']) () [[PNone, PNone], [PNone, PNone]] 1
   = Some \<lparr>tbl = [[PNone, PFloat 30], [PNone, PFloat 31]],
           evs = [WroteMetric 0 1 (PFloat 30), WroteMetric 1 1 (PFloat 31), Sleep, Sleep, Sleep,
                  SavedImg [''out'', ''test'', ''img1.png'']]\<rparr> \<and>
   saved_paths [WroteMetric 0 1 (PFloat 30), WroteMetric 1 1 (PFloat 31), Sleep, Sleep, Sleep,
                  SavedImg [''out'', ''test'', ''img1.png'']] = [[''out'', ''test'', ''img1.png'']]"
proof -
  have h: "(\<forall>k\<le>3. 1 < length (written_at 3 [PNone, PNone] 1 (PList [1 / 2]) k)) \<and>
     (\<forall>k<3. \<not> truthy (written_at 3 [PNone, PNone] 1 (PList [1 / 2]) k ! 1)) \<and>
     truthy (written_at 3 [PNone, PNone] 1 (PList [1 / 2]) 3 ! 1)"
    by (simp add: written_at_def)
  have sv: "save_img ip_ok () (truediv [''out'', ''test''] (stem [''db'', ''img1.jpg''] @ ''.png'')) = None"
    by (simp add: ip_ok_def)
  have r3: "replicate 3 Sleep = [Sleep, Sleep, Sleep]"
    by (simp add: numeral_3_eq_3)
  from image_saved_once_after_wait[of ip_ok two_metrics
      "written_at 3 [PNone, PNone] 1 (PList [1 / 2])" "[''db'', ''img1.jpg'']"
      "Some [''out'', ''test'']" "()" "[[PNone, PNone], [PNone, PNone]]" 1 _
      "\<lparr>tbl = [[PNone, PFloat 30], [PNone, PFloat 31]],
               evs = [WroteMetric 0 1 (PFloat 30), WroteMetric 1 1 (PFloat 31)]\<rparr>" 3
      "[''out'', ''test'']"]
    phase_ok_pos1 h sv
  show ?thesis
    by (simp add: stem_img1 truediv_def r3)
qed

section \<open>The metric cells are written before the wait\<close>

lemma metrics_loop_wrote:
  "metrics_loop ip r d pos ms s = (None, s') \<Longrightarrow> m \<in> set ms \<Longrightarrow>
     \<exists>v. calc_metric ip r d m = Inr v \<and> WroteMetric (m_index m) pos v \<in> set (evs s')"
proof (induction ms arbitrary: s)
  case Nil
  then show ?case by simp
next
  case (Cons a ms)
  show ?case
  proof (cases "calc_metric ip r d a")
    case (Inl e)
    with Cons.prems show ?thesis by simp
  next
    case (Inr v)
    show ?thesis
    proof (cases "store_metric (tbl s) (m_index a) pos v")
      case (Inl e)
      with Inr Cons.prems show ?thesis by simp
    next
      case t: (Inr t)
      let ?s1 = "emit (WroteMetric (m_index a) pos v) (s\<lparr>tbl := t\<rparr>)"
      from Cons.prems Inr t have run: "metrics_loop ip r d pos ms ?s1 = (None, s')" by simp
      show ?thesis
      proof (cases "m = a")
        case True
        from metrics_loop_events[OF run] have "WroteMetric (m_index a) pos v \<in> set (evs s')"
          by (auto simp: emit_def)
        with True Inr show ?thesis by simp
      next
        case False
        with Cons.prems have "m \<in> set ms" by simp
        from Cons.IH[OF run this] show ?thesis .
      qed
    qed
  qed
qed

lemma metrics_phase_None:
  assumes "metrics_phase ip Metrics orig_path patches metrics_proxy pos = (None, s1)"
  shows "\<exists>r. load_image ip orig_path = Inr r \<and>
     metrics_loop ip r patches pos Metrics \<lparr>tbl = metrics_proxy, evs = []\<rparr> = (None, s1)"
  using assms by (cases "load_image ip orig_path") (auto simp: metrics_phase_def)

lemma same_index_same_metric:
  "distinct (map m_index ms) \<Longrightarrow> m \<in> set ms \<Longrightarrow> m' \<in> set ms \<Longrightarrow> m_index m' = m_index m
     \<Longrightarrow> m' = m"
  by (meson distinct_map inj_onD)

lemma job_keeps_table:
  assumes "metrics_phase ip Metrics orig_path patches metrics_proxy pos = (x, s1)"
    and "save_imgs_from_patches ip Metrics bpp_at orig_path save_folder patches metrics_proxy pos = Some s"
  shows "tbl s = tbl s1 \<and> prefix (evs s1) (evs s)"
  using assms(2)
proof (cases rule: job_Some_cases)
  case (raised e s1')
  with assms(1) show ?thesis by (simp add: evs_handler)
next
  case (waited s1')
  with assms(1) have "wait_and_save ip bpp_at orig_path save_folder patches pos s1 = Some s" by simp
  from wait_and_save_cases[OF this] show ?thesis by auto
qed

text \<open>
  Claim C10. When the wait begins, that is when loading and the loop over the metrics
  have raised nothing, every metric of \<open>Metrics\<close> has been computed and written into
  its cell for this index before any sleep or image write, and the cell holds a computed
  value of its row: the value of the metric itself when the rows of the metrics are
  distinct. Whatever follows (a failing image write, a raising read, an abandoned wait)
  leaves the metric lists as they were when the wait began.
\<close>

theorem metrics_written_before_wait:
  "metrics_phase ip Metrics orig_path patches metrics_proxy pos = (None, s1) \<longrightarrow>
     (\<exists>r. load_image ip orig_path = Inr r \<and>
        (\<forall>m. m \<in> set Metrics \<longrightarrow>
           (\<exists>v. calc_metric ip r patches m = Inr v \<and>
                 WroteMetric (m_index m) pos v \<in> set (evs s1)) \<and>
           m_index m < length (tbl s1) \<and> pos < length (tbl s1 ! m_index m) \<and>
           (\<exists>m'. m' \<in> set Metrics \<and> m_index m' = m_index m \<and>
                 calc_metric ip r patches m' = Inr (tbl s1 ! m_index m ! pos)) \<and>
           (distinct (map m_index Metrics) \<longrightarrow>
              calc_metric ip r patches m = Inr (tbl s1 ! m_index m ! pos)))) \<and>
     saved_paths (evs s1) = [] \<and> Sleep \<notin> set (evs s1) \<and>
     (\<forall>s. save_imgs_from_patches ip Metrics bpp_at orig_path save_folder patches metrics_proxy pos
             = Some s \<longrightarrow> tbl s = tbl s1 \<and> prefix (evs s1) (evs s))"
proof
  assume ph: "metrics_phase ip Metrics orig_path patches metrics_proxy pos = (None, s1)"
  from metrics_phase_None[OF ph] obtain r where r: "load_image ip orig_path = Inr r"
    and run: "metrics_loop ip r patches pos Metrics \<lparr>tbl = metrics_proxy, evs = []\<rparr> = (None, s1)"
    by blast
  have cells: "(\<exists>v. calc_metric ip r patches m = Inr v \<and>
                 WroteMetric (m_index m) pos v \<in> set (evs s1)) \<and>
           m_index m < length (tbl s1) \<and> pos < length (tbl s1 ! m_index m) \<and>
           (\<exists>m'. m' \<in> set Metrics \<and> m_index m' = m_index m \<and>
                 calc_metric ip r patches m' = Inr (tbl s1 ! m_index m ! pos)) \<and>
           (distinct (map m_index Metrics) \<longrightarrow>
              calc_metric ip r patches m = Inr (tbl s1 ! m_index m ! pos))"
    if m: "m \<in> set Metrics" for m
  proof -
    from metrics_loop_cells[OF run m] obtain m' where
      rng: "m_index m < length (tbl s1)" "pos < length (tbl s1 ! m_index m)"
      and m': "m' \<in> set Metrics" "m_index m' = m_index m"
        "calc_metric ip r patches m' = Inr (tbl s1 ! m_index m ! pos)"
      by blast
    have "calc_metric ip r patches m = Inr (tbl s1 ! m_index m ! pos)"
      if "distinct (map m_index Metrics)"
      using same_index_same_metric[OF that m m'(1) m'(2)] m'(3) by simp
    with metrics_loop_wrote[OF run m] rng m' show ?thesis by blast
  qed
  from metrics_loop_events[OF run] have "Sleep \<notin> set (evs s1)" by auto
  with r cells metrics_phase_events[OF ph] job_keeps_table[OF ph]
  show "(\<exists>r. load_image ip orig_path = Inr r \<and>
        (\<forall>m. m \<in> set Metrics \<longrightarrow>
           (\<exists>v. calc_metric ip r patches m = Inr v \<and>
                 WroteMetric (m_index m) pos v \<in> set (evs s1)) \<and>
           m_index m < length (tbl s1) \<and> pos < length (tbl s1 ! m_index m) \<and>
           (\<exists>m'. m' \<in> set Metrics \<and> m_index m' = m_index m \<and>
                 calc_metric ip r patches m' = Inr (tbl s1 ! m_index m ! pos)) \<and>
           (distinct (map m_index Metrics) \<longrightarrow>
              calc_metric ip r patches m = Inr (tbl s1 ! m_index m ! pos)))) \<and>
     saved_paths (evs s1) = [] \<and> Sleep \<notin> set (evs s1) \<and>
     (\<forall>s. save_imgs_from_patches ip Metrics bpp_at orig_path save_folder patches metrics_proxy pos
             = Some s \<longrightarrow> tbl s = tbl s1 \<and> prefix (evs s1) (evs s))"
    by blast
qed

lemma phase_save_fails_pos1:
  "metrics_phase ip_save_fails two_metrics [''db'', ''img1.jpg''] () [[PNone, PNone], [PNone, PNone]] 1
     = (None, \<lparr>tbl = [[PNone, PFloat 30], [PNone, PFloat 31]],
               evs = [WroteMetric 0 1 (PFloat 30), WroteMetric 1 1 (PFloat 31)]\<rparr>)"
  by (simp add: metrics_phase_def ip_save_fails_def two_metrics_def store_metric_def getitem_def
      setitem_def emit_def)

lemma job_save_fails:
  "save_imgs_from_patches ip_save_fails two_metrics (unchanged [PNone, PList [1 / 2]])
     [''db'', ''img1.jpg''] (Some [''out'', ''test'']) () [[PNone, PNone], [PNone, PNone]] 1
   = Some \<lparr>tbl = [[PNone, PFloat 30], [PNone, PFloat 31]],
           evs = [WroteMetric 0 1 (PFloat 30), WroteMetric 1 1 (PFloat 31), PrintExc OSError]\<rparr>"
proof -
  have "wait_loop (unchanged [PNone, PList [1 / 2]]) 1 0 0 = Some (Ready 0)"
    by (subst wait_loop.simps) (simp add: unchanged_def)
  then show ?thesis
    unfolding save_imgs_from_patches_def phase_save_fails_pos1
    by (simp add: wait_and_save_def get_out_pathname_def ip_save_fails_def handler_def
        emit_def sleeps_def)
qed

text \<open>
  Claim C10 at a concrete run whose image write fails with \<open>OSError\<close>: the job
  returns after the handler, and both metric cells of image 1 hold their values.
\<close>

theorem metrics_written_before_wait_witness:
  "metrics_phase ip_save_fails two_metrics [''db'', ''img1.jpg''] () [[PNone, PNone], [PNone, PNone]] 1
     = (None, \<lparr>tbl = [[PNone, PFloat 30], [PNone, PFloat 31]],
               evs = [WroteMetric 0 1 (PFloat 30), WroteMetric 1 1 (PFloat 31)]\<rparr>) \<and>
   save_imgs_from_patches ip_save_fails two_metrics (unchanged [PNone, PList [1 / 2]])
     [''db'', ''img1.jpg''] (Some [''out'', ''test'']) () [[PNone, PNone], [PNone, PNone]] 1
   = Some \<lparr>tbl = [[PNone, PFloat 30], [PNone, PFloat 31]],
           evs = [WroteMetric 0 1 (PFloat 30), WroteMetric 1 1 (PFloat 31), PrintExc OSError]\<rparr> \<and>
   calc_metric ip_save_fails () () \<lparr>m_index = 1, m_name = ''ssim''\<rparr>
     = Inr ([[PNone, PFloat 30], [PNone, PFloat 31]] ! 1 ! 1)"
  using metrics_written_before_wait[of ip_save_fails two_metrics "[''db'', ''img1.jpg'']" "()"
      "[[PNone, PNone], [PNone, PNone]]" 1
      "\<lparr>tbl = [[PNone, PFloat 30], [PNone, PFloat 31]],
               evs = [WroteMetric 0 1 (PFloat 30), WroteMetric 1 1 (PFloat 31)]\<rparr>"
      "unchanged [PNone, PList [1 / 2]]" "Some [''out'', ''test'']"]
    phase_save_fails_pos1 job_save_fails
  by (simp add: ip_save_fails_def)

section \<open>Exceptions inside the job\<close>

lemma job_raised:
  assumes "metrics_phase ip Metrics orig_path patches metrics_proxy pos = (Some e, s1)"
  shows "save_imgs_from_patches ip Metrics bpp_at orig_path save_folder patches metrics_proxy pos
            = Some \<lparr>tbl = tbl s1, evs = evs s1 @ [PrintExc e]\<rparr>"
  using assms by (simp add: save_imgs_from_patches_def handler_def emit_def)

lemma job_caught:
  assumes job: "save_imgs_from_patches ip Metrics bpp_at orig_path save_folder patches metrics_proxy pos = Some s"
    and exc: "PrintExc e \<in> set (evs s)"
  shows "saved_paths (evs s) = [] \<and> last (evs s) = PrintExc e"
  using job
proof (cases rule: job_Some_cases)
  case (raised e' s1)
  from metrics_phase_events[OF raised(1)] raised(2) exc show ?thesis
    by (auto simp: evs_handler saved_paths_append)
next
  case (waited s1)
  note ev = metrics_phase_events[OF waited(1)]
  from wait_and_save_cases[OF waited(2)] consider
    (exc) t e' where "evs s = evs s1 @ replicate t Sleep @ [PrintExc e']"
  | (saved) t p where "evs s = evs s1 @ replicate t Sleep @ [SavedImg p]"
    by blast
  then show ?thesis
  proof cases
    case exc
    with ev \<open>PrintExc e \<in> set (evs s)\<close> show ?thesis
      by (auto simp: saved_paths_snoc_exc)
  next
    case saved
    with ev \<open>PrintExc e \<in> set (evs s)\<close> show ?thesis by auto
  qed
qed

lemma wait_loop_raised:
  assumes "seen b p t t'" "\<not> p < length (b t')" "c \<le> 100"
  shows "wait_loop b p c t = Some (ReadRaised IndexError t')"
  using assms
proof (induction "t' - t" arbitrary: t)
  case 0
  then have "t = t'" by (simp add: seen_def)
  with 0 show ?case by (subst wait_loop.simps) simp
next
  case (Suc n)
  then have lt: "t < t'" by simp
  with Suc.prems have now: "p < length (b t)" "\<not> truthy (b t ! p)"
    by (auto simp: seen_def)
  have "seen b p (Suc t) t'" using Suc.prems lt by (auto simp: seen_def)
  moreover have "n = t' - Suc t" using Suc.hyps by simp
  ultimately have "wait_loop b p c (Suc t) = Some (ReadRaised IndexError t')"
    using Suc.hyps(1) Suc.prems by blast
  with now Suc.prems show ?case by (subst wait_loop.simps) simp
qed

lemma job_read_raises:
  assumes "metrics_phase ip Metrics orig_path patches metrics_proxy pos = (None, s1)"
    and "\<forall>k<w. pos < length (bpp_at k) \<and> \<not> truthy (bpp_at k ! pos)"
    and "\<not> pos < length (bpp_at w)"
  shows "save_imgs_from_patches ip Metrics bpp_at orig_path save_folder patches metrics_proxy pos
      = Some \<lparr>tbl = tbl s1, evs = evs s1 @ replicate w Sleep @ [PrintExc IndexError]\<rparr>"
proof -
  from assms(2) have "seen bpp_at pos 0 w" by (auto simp: seen_def)
  from wait_loop_raised[OF this assms(3), of 0]
  have "wait_loop bpp_at pos 0 0 = Some (ReadRaised IndexError w)" by simp
  with assms(1) show ?thesis
    by (simp add: save_imgs_from_patches_def wait_and_save_def handler_def emit_def sleeps_def)
qed

lemma job_after_wait_raises:
  assumes "metrics_phase ip Metrics orig_path patches metrics_proxy pos = (None, s1)"
    and "\<forall>k\<le>w. pos < length (bpp_at k)" "\<forall>k<w. \<not> truthy (bpp_at k ! pos)"
    and "truthy (bpp_at w ! pos)"
  shows "save_folder = None \<Longrightarrow>
      save_imgs_from_patches ip Metrics bpp_at orig_path save_folder patches metrics_proxy pos
      = Some \<lparr>tbl = tbl s1, evs = evs s1 @ replicate w Sleep @ [PrintExc TypeError]\<rparr>"
    and "save_folder = Some out \<Longrightarrow>
      save_img ip patches (truediv out (stem orig_path @ ''.png'')) = Some e \<Longrightarrow>
      save_imgs_from_patches ip Metrics bpp_at orig_path save_folder patches metrics_proxy pos
      = Some \<lparr>tbl = tbl s1, evs = evs s1 @ replicate w Sleep @ [PrintExc e]\<rparr>"
proof -
  from assms(2,3) have "seen bpp_at pos 0 w" by (auto simp: seen_def)
  with assms(2,4) have w: "wait_loop bpp_at pos 0 0 = Some (Ready w)"
    by (intro wait_loop_ready) auto
  show "save_folder = None \<Longrightarrow>
      save_imgs_from_patches ip Metrics bpp_at orig_path save_folder patches metrics_proxy pos
      = Some \<lparr>tbl = tbl s1, evs = evs s1 @ replicate w Sleep @ [PrintExc TypeError]\<rparr>"
    using assms(1) w
    by (simp add: save_imgs_from_patches_def wait_and_save_def get_out_pathname_def handler_def
        emit_def sleeps_def)
  show "save_folder = Some out \<Longrightarrow>
      save_img ip patches (truediv out (stem orig_path @ ''.png'')) = Some e \<Longrightarrow>
      save_imgs_from_patches ip Metrics bpp_at orig_path save_folder patches metrics_proxy pos
      = Some \<lparr>tbl = tbl s1, evs = evs s1 @ replicate w Sleep @ [PrintExc e]\<rparr>"
    using assms(1) w
    by (simp add: save_imgs_from_patches_def wait_and_save_def get_out_pathname_def handler_def
        emit_def sleeps_def)
qed

text \<open>
  Claim C6, as amended. Whatever raises inside the job, the job returns with the
  stack trace printed as its last act and no image written: an exception of
  \<open>load_image\<close> or of the loop over the metrics, an \<open>IndexError\<close> of the read of the
  size cell, a \<open>TypeError\<close> of \<open>get_out_pathname\<close> for a missing folder, an
  exception of \<open>save_img\<close>. The metric lists are then as the loop over the metrics
  left them: the cells written before the exception stay written. And any job that
  returns having printed a stack trace has written no image.
\<close>

theorem exception_caught_at_job_boundary:
  "(metrics_phase ip Metrics orig_path patches metrics_proxy pos = (Some e, s1) \<longrightarrow>
      save_imgs_from_patches ip Metrics bpp_at orig_path save_folder patches metrics_proxy pos
        = Some \<lparr>tbl = tbl s1, evs = evs s1 @ [PrintExc e]\<rparr>) \<and>
   (metrics_phase ip Metrics orig_path patches metrics_proxy pos = (None, s0) \<and>
    (\<forall>k<w. pos < length (bpp_at k) \<and> \<not> truthy (bpp_at k ! pos)) \<and>
    \<not> pos < length (bpp_at w) \<longrightarrow>
      save_imgs_from_patches ip Metrics bpp_at orig_path save_folder patches metrics_proxy pos
        = Some \<lparr>tbl = tbl s0, evs = evs s0 @ replicate w Sleep @ [PrintExc IndexError]\<rparr>) \<and>
   (metrics_phase ip Metrics orig_path patches metrics_proxy pos = (None, s0) \<and>
    (\<forall>k\<le>w. pos < length (bpp_at k)) \<and> (\<forall>k<w. \<not> truthy (bpp_at k ! pos)) \<and>
    truthy (bpp_at w ! pos) \<and> save_folder = None \<longrightarrow>
      save_imgs_from_patches ip Metrics bpp_at orig_path save_folder patches metrics_proxy pos
        = Some \<lparr>tbl = tbl s0, evs = evs s0 @ replicate w Sleep @ [PrintExc TypeError]\<rparr>) \<and>
   (metrics_phase ip Metrics orig_path patches metrics_proxy pos = (None, s0) \<and>
    (\<forall>k\<le>w. pos < length (bpp_at k)) \<and> (\<forall>k<w. \<not> truthy (bpp_at k ! pos)) \<and>
    truthy (bpp_at w ! pos) \<and> save_folder = Some out \<and>
    save_img ip patches (truediv out (stem orig_path @ ''.png'')) = Some e2 \<longrightarrow>
      save_imgs_from_patches ip Metrics bpp_at orig_path save_folder patches metrics_proxy pos
        = Some \<lparr>tbl = tbl s0, evs = evs s0 @ replicate w Sleep @ [PrintExc e2]\<rparr>) \<and>
   (save_imgs_from_patches ip Metrics bpp_at orig_path save_folder patches metrics_proxy pos = Some s
      \<and> PrintExc e' \<in> set (evs s) \<longrightarrow>
      saved_paths (evs s) = [] \<and> last (evs s) = PrintExc e' \<and>
      tbl s = tbl (snd (metrics_phase ip Metrics orig_path patches metrics_proxy pos)))"
proof (intro conjI impI)
  assume "metrics_phase ip Metrics orig_path patches metrics_proxy pos = (Some e, s1)"
  then show "save_imgs_from_patches ip Metrics bpp_at orig_path save_folder patches metrics_proxy pos
        = Some \<lparr>tbl = tbl s1, evs = evs s1 @ [PrintExc e]\<rparr>"
    by (rule job_raised)
next
  assume "metrics_phase ip Metrics orig_path patches metrics_proxy pos = (None, s0) \<and>
    (\<forall>k<w. pos < length (bpp_at k) \<and> \<not> truthy (bpp_at k ! pos)) \<and>
    \<not> pos < length (bpp_at w)"
  then show "save_imgs_from_patches ip Metrics bpp_at orig_path save_folder patches metrics_proxy pos
        = Some \<lparr>tbl = tbl s0, evs = evs s0 @ replicate w Sleep @ [PrintExc IndexError]\<rparr>"
    by (intro job_read_raises) auto
next
  assume "metrics_phase ip Metrics orig_path patches metrics_proxy pos = (None, s0) \<and>
    (\<forall>k\<le>w. pos < length (bpp_at k)) \<and> (\<forall>k<w. \<not> truthy (bpp_at k ! pos)) \<and>
    truthy (bpp_at w ! pos) \<and> save_folder = None"
  then show "save_imgs_from_patches ip Metrics bpp_at orig_path save_folder patches metrics_proxy pos
        = Some \<lparr>tbl = tbl s0, evs = evs s0 @ replicate w Sleep @ [PrintExc TypeError]\<rparr>"
    by (intro job_after_wait_raises(1)) auto
next
  assume "metrics_phase ip Metrics orig_path patches metrics_proxy pos = (None, s0) \<and>
    (\<forall>k\<le>w. pos < length (bpp_at k)) \<and> (\<forall>k<w. \<not> truthy (bpp_at k ! pos)) \<and>
    truthy (bpp_at w ! pos) \<and> save_folder = Some out \<and>
    save_img ip patches (truediv out (stem orig_path @ ''.png'')) = Some e2"
  then show "save_imgs_from_patches ip Metrics bpp_at orig_path save_folder patches metrics_proxy pos
        = Some \<lparr>tbl = tbl s0, evs = evs s0 @ replicate w Sleep @ [PrintExc e2]\<rparr>"
    by (intro job_after_wait_raises(2)) auto
next
  assume a: "save_imgs_from_patches ip Metrics bpp_at orig_path save_folder patches metrics_proxy pos = Some s
      \<and> PrintExc e' \<in> set (evs s)"
  then have j: "save_imgs_from_patches ip Metrics bpp_at orig_path save_folder patches metrics_proxy pos = Some s"
    and x: "PrintExc e' \<in> set (evs s)" by simp_all
  from job_caught[OF j x] show "saved_paths (evs s) = []" by simp
  from job_caught[OF j x] show "last (evs s) = PrintExc e'" by simp
  obtain x s1' where ph: "metrics_phase ip Metrics orig_path patches metrics_proxy pos = (x, s1')"
    by (cases "metrics_phase ip Metrics orig_path patches metrics_proxy pos")
  from job_keeps_table[OF ph j] ph
  show "tbl s = tbl (snd (metrics_phase ip Metrics orig_path patches metrics_proxy pos))"
    by simp
qed

lemma phase_metric_fails_pos1:
  "metrics_phase ip_metric_fails two_metrics [''db'', ''img1.jpg''] () [[PNone, PNone], [PNone, PNone]] 1
     = (Some ValueError, \<lparr>tbl = [[PNone, PFloat 30], [PNone, PNone]],
               evs = [WroteMetric 0 1 (PFloat 30)]\<rparr>)"
  by (simp add: metrics_phase_def ip_metric_fails_def two_metrics_def store_metric_def getitem_def
      setitem_def emit_def)

text \<open>
  The amended claim at four concrete runs for image 1 of two: the second metric raises
  \<open>ValueError\<close>; the size list has one cell only, so the read raises \<open>IndexError\<close>;
  there is no output folder, so the path raises \<open>TypeError\<close>; the write of the image
  raises \<open>OSError\<close>. Each job returns after the handler, without an image, and with
  the metric cells it had written.
\<close>

theorem exception_caught_at_job_boundary_witness:
  "save_imgs_from_patches ip_metric_fails two_metrics (unchanged [PList [1 / 2], PList [1 / 2]])
     [''db'', ''img1.jpg''] (Some [''out'', ''test'']) () [[PNone, PNone], [PNone, PNone]] 1
   = Some \<lparr>tbl = [[PNone, PFloat 30], [PNone, PNone]],
           evs = [WroteMetric 0 1 (PFloat 30), PrintExc ValueError]\<rparr> \<and>
   save_imgs_from_patches ip_ok two_metrics (unchanged [PNone])
     [''db'', ''img1.jpg''] (Some [''out'', ''test'']) () [[PNone, PNone], [PNone, PNone]] 1
   = Some \<lparr>tbl = [[PNone, PFloat 30], [PNone, PFloat 31]],
           evs = [WroteMetric 0 1 (PFloat 30), WroteMetric 1 1 (PFloat 31), PrintExc IndexError]\<rparr> \<and>
   save_imgs_from_patches ip_ok two_metrics (unchanged [PNone, PList [1 / 2]])
     [''db'', ''img1.jpg''] None () [[PNone, PNone], [PNone, PNone]] 1
   = Some \<lparr>tbl = [[PNone, PFloat 30], [PNone, PFloat 31]],
           evs = [WroteMetric 0 1 (PFloat 30), WroteMetric 1 1 (PFloat 31), PrintExc TypeError]\<rparr> \<and>
   save_imgs_from_patches ip_save_fails two_metrics (unchanged [PNone, PList [1 / 2]])
     [''db'', ''img1.jpg''] (Some [''out'', ''test'']) () [[PNone, PNone], [PNone, PNone]] 1
   = Some \<lparr>tbl = [[PNone, PFloat 30], [PNone, PFloat 31]],
           evs = [WroteMetric 0 1 (PFloat 30), WroteMetric 1 1 (PFloat 31), PrintExc OSError]\<rparr> \<and>
   saved_paths [WroteMetric 0 1 (PFloat 30), WroteMetric 1 1 (PFloat 31), PrintExc OSError] = []"
proof -
  let ?s1 = "\<lparr>tbl = [[PNone, PFloat 30], [PNone, PFloat 31]],
               evs = [WroteMetric 0 1 (PFloat 30), WroteMetric 1 1 (PFloat 31)]\<rparr>"
  have a: "save_imgs_from_patches ip_metric_fails two_metrics (unchanged [PList [1 / 2], PList [1 / 2]])
     [''db'', ''img1.jpg''] (Some [''out'', ''test'']) () [[PNone, PNone], [PNone, PNone]] 1
   = Some \<lparr>tbl = [[PNone, PFloat 30], [PNone, PNone]],
           evs = [WroteMetric 0 1 (PFloat 30), PrintExc ValueError]\<rparr>"
    using exception_caught_at_job_boundary[of ip_metric_fails two_metrics "[''db'', ''img1.jpg'']" "()"
      "[[PNone, PNone], [PNone, PNone]]" 1 ValueError
      "\<lparr>tbl = [[PNone, PFloat 30], [PNone, PNone]], evs = [WroteMetric 0 1 (PFloat 30)]\<rparr>"
      "unchanged [PList [1 / 2], PList [1 / 2]]" "Some [''out'', ''test'']"]
      phase_metric_fails_pos1
    by simp
  have b: "save_imgs_from_patches ip_ok two_metrics (unchanged [PNone])
     [''db'', ''img1.jpg''] (Some [''out'', ''test'']) () [[PNone, PNone], [PNone, PNone]] 1
   = Some \<lparr>tbl = [[PNone, PFloat 30], [PNone, PFloat 31]],
           evs = [WroteMetric 0 1 (PFloat 30), WroteMetric 1 1 (PFloat 31), PrintExc IndexError]\<rparr>"
    using exception_caught_at_job_boundary[of ip_ok two_metrics "[''db'', ''img1.jpg'']" "()"
      "[[PNone, PNone], [PNone, PNone]]" 1 _ _ "unchanged [PNone]" "Some [''out'', ''test'']"
      ?s1 0]
      phase_ok_pos1
    by (simp add: unchanged_def)
  have c: "save_imgs_from_patches ip_ok two_metrics (unchanged [PNone, PList [1 / 2]])
     [''db'', ''img1.jpg''] None () [[PNone, PNone], [PNone, PNone]] 1
   = Some \<lparr>tbl = [[PNone, PFloat 30], [PNone, PFloat 31]],
           evs = [WroteMetric 0 1 (PFloat 30), WroteMetric 1 1 (PFloat 31), PrintExc TypeError]\<rparr>"
    using exception_caught_at_job_boundary[of ip_ok two_metrics "[''db'', ''img1.jpg'']" "()"
      "[[PNone, PNone], [PNone, PNone]]" 1 _ _ "unchanged [PNone, PList [1 / 2]]" None
      ?s1 0]
      phase_ok_pos1
    by (simp add: unchanged_def)
  have d: "save_imgs_from_patches ip_save_fails two_metrics (unchanged [PNone, PList [1 / 2]])
     [''db'', ''img1.jpg''] (Some [''out'', ''test'']) () [[PNone, PNone], [PNone, PNone]] 1
   = Some \<lparr>tbl = [[PNone, PFloat 30], [PNone, PFloat 31]],
           evs = [WroteMetric 0 1 (PFloat 30), WroteMetric 1 1 (PFloat 31), PrintExc OSError]\<rparr>"
    using exception_caught_at_job_boundary[of ip_save_fails two_metrics "[''db'', ''img1.jpg'']" "()"
      "[[PNone, PNone], [PNone, PNone]]" 1 _ _ "unchanged [PNone, PList [1 / 2]]"
      "Some [''out'', ''test'']" ?s1 0 "[''out'', ''test'']" OSError]
      phase_save_fails_pos1
    by (simp add: unchanged_def ip_save_fails_def)
  from a b c d show ?thesis by simp
qed

text \<open>
  Claim C6 as stated fails in its promise of no partial writes to the tables: with
  one image and two metrics of which the second raises, the job returns with the cell
  of the first metric written and the cell of the second still empty.
\<close>

theorem partial_metric_writes_remain:
  "save_imgs_from_patches ip_metric_fails two_metrics (unchanged [PList [1 / 2]])
     [''db'', ''img0.jpg''] (Some [''out'', ''test'']) () [[PNone], [PNone]] 0
   = Some \<lparr>tbl = [[PFloat 30], [PNone]],
           evs = [WroteMetric 0 0 (PFloat 30), PrintExc ValueError]\<rparr>"
proof -
  have "metrics_phase ip_metric_fails two_metrics [''db'', ''img0.jpg''] () [[PNone], [PNone]] 0
     = (Some ValueError, \<lparr>tbl = [[PFloat 30], [PNone]], evs = [WroteMetric 0 0 (PFloat 30)]\<rparr>)"
    by (simp add: metrics_phase_def ip_metric_fails_def two_metrics_def store_metric_def
        getitem_def setitem_def emit_def)
  then show ?thesis
    by (simp add: save_imgs_from_patches_def handler_def emit_def)
qed

section \<open>The output folder by mode\<close>

text \<open>
  Claim C9. The resolution is meant to yield a residues folder in \<open>TRAIN\<close> mode with
  the \<open>RESIDUES\<close> output type. There the code replaces the \<open>Path\<close> by a plain
  string and then applies \<open>/=\<close> to it, which raises \<open>TypeError\<close>: no folder is
  yielded or created.
\<close>

theorem residues_folder_raises:
  "fst (create_out_folder \<lparr>exec_mode = Exec_TRAIN, out_type = Out_RESIDUES\<rparr> [''out''] {})
     = Inl TypeError"
  by (simp add: create_out_folder_def itruediv_def)

text \<open>The resolution in every mode: the other three cases are as the claim says.\<close>

lemma create_out_folder_modes:
  "create_out_folder st out_name fs =
     (if out_type st = Out_NONE then (Inr None, fs)
      else if exec_mode st = Exec_TRAIN \<and> out_type st = Out_RESIDUES then (Inl TypeError, fs)
      else if exec_mode st = Exec_TEST
        then (Inr (Some (out_name @ [''test''])), fs \<union> set (prefixes (out_name @ [''test''])))
        else (Inr (Some (out_name @ [''validation''])),
              fs \<union> set (prefixes (out_name @ [''validation'']))))"
  by (simp add: create_out_folder_def itruediv_def truediv_def mkdir_parents_def
      str_Folders_TEST_def str_Folders_VALIDATION_def Let_def)

section \<open>The loop of the coordinator\<close>

lemma main_loop_enough:
  "length xs \<le> length q \<Longrightarrow>
     main_loop out (enumerate k xs) q =
       (concat (map (\<lambda>i. iteration out (k + i) (xs ! i) (q ! i)) [0..<length xs]), True)"
proof (induction xs arbitrary: k q)
  case Nil
  then show ?case by simp
next
  case (Cons x xs)
  then obtain item q' where q: "q = item # q'" by (cases q) auto
  with Cons.prems have "length xs \<le> length q'" by simp
  from Cons.IH[OF this, of "Suc k"]
  have IH: "main_loop out (enumerate (Suc k) xs) q' =
       (concat (map (\<lambda>i. iteration out (Suc k + i) (xs ! i) (q' ! i)) [0..<length xs]), True)" .
  have shift: "map (\<lambda>i. iteration out (k + i) ((x # xs) ! i) ((item # q') ! i)) [0..<length (x # xs)]
      = iteration out k x item # map (\<lambda>i. iteration out (Suc k + i) (xs ! i) (q' ! i)) [0..<length xs]"
    by (simp add: upt_conv_Cons map_Suc_upt[symmetric] del: upt_Suc)
  show ?case
    unfolding q shift
    by (simp add: IH iteration_def codecs_out_routines_def)
qed

lemma submitted_to_append: "submitted_to n (xs @ ys) = submitted_to n xs @ submitted_to n ys"
  by (induction n xs rule: submitted_to.induct) auto

lemma submitted_to_concat: "submitted_to n (concat xss) = concat (map (submitted_to n) xss)"
  by (induction xss) (auto simp: submitted_to_append)

lemma submitted_iteration:
  "submitted_to 0 (iteration out i img item) = [CalcBppUsingGzip item img i]"
  "submitted_to (Suc 0) (iteration out i img item) = [SaveImgsFromPatches img out item i]"
  by (simp_all add: iteration_def)

lemma concat_map_singleton: "concat (map (\<lambda>i. [f i]) xs) = map f xs"
  by (induction xs) auto

lemma dequeued_append: "dequeued (xs @ ys) = dequeued xs @ dequeued ys"
  by (induction xs rule: dequeued.induct) auto

lemma dequeued_concat: "dequeued (concat xss) = concat (map dequeued xss)"
  by (induction xss) (auto simp: dequeued_append)

lemma dequeued_iteration: "dequeued (iteration out i img item) = [item]"
  by (simp add: iteration_def)

lemma map_nth_take: "n \<le> length q \<Longrightarrow> map (\<lambda>i. q ! i) [0..<n] = take n q"
  by (simp add: list_eq_iff_nth_eq)

lemma handle_output_reached:
  assumes "fst (create_out_folder st out_name fs) = Inr out_folder"
    and "main_loop out_folder (enumerate 0 img_pathnames) queue = (acts, True)"
  shows "handle_output job_returns st out_name fs img_pathnames queue =
     (if \<not> list_all job_returns (submitted_to 0 acts)
      then (acts @ [PoolClose 0, PoolClose 1, PoolJoin 0], BlockedOnJoin 0)
      else if \<not> list_all job_returns (submitted_to 1 acts)
      then (acts @ [PoolClose 0, PoolClose 1, PoolJoin 0, PoolJoin 1], BlockedOnJoin 1)
      else (acts @ [PoolClose 0, PoolClose 1, PoolJoin 0, PoolJoin 1,
                    SaveOutAnalysis img_pathnames out_folder], CalledReport))"
  using assms by (simp add: handle_output_def)

text \<open>
  Claim C5. With the output folder resolved and at least as many items on the queue
  as there are image paths, the loop ends after one turn per path, in listing order:
  turn \<open>i\<close> reclaims memory when \<open>i\<close> is a multiple of 5, takes one item, and
  submits one job to each pool with index \<open>i\<close> and path \<open>i\<close>. The items taken are the
  first \<open>n\<close> of the queue. The report builder is called exactly when every submitted
  job returns, and then after both pools were closed and joined.
\<close>

theorem coordinator_loop_and_barrier:
  "fst (create_out_folder st out_name fs) = Inr out_folder \<and> length img_pathnames \<le> length queue \<longrightarrow>
    (let n = length img_pathnames;
         acts = concat (map (\<lambda>i. iteration out_folder i (img_pathnames ! i) (queue ! i)) [0..<n])
     in main_loop out_folder (enumerate 0 img_pathnames) queue = (acts, True) \<and>
        dequeued acts = take n queue \<and>
        submitted_to 0 acts =
          map (\<lambda>i. CalcBppUsingGzip (queue ! i) (img_pathnames ! i) i) [0..<n] \<and>
        submitted_to 1 acts =
          map (\<lambda>i. SaveImgsFromPatches (img_pathnames ! i) out_folder (queue ! i) i) [0..<n] \<and>
        (snd (handle_output job_returns st out_name fs img_pathnames queue) = CalledReport) =
          (list_all job_returns (submitted_to 0 acts) \<and> list_all job_returns (submitted_to 1 acts)) \<and>
        (snd (handle_output job_returns st out_name fs img_pathnames queue) = CalledReport) =
          (fst (handle_output job_returns st out_name fs img_pathnames queue) =
             acts @ [PoolClose 0, PoolClose 1, PoolJoin 0, PoolJoin 1,
                     SaveOutAnalysis img_pathnames out_folder]))"
proof
  assume a: "fst (create_out_folder st out_name fs) = Inr out_folder \<and> length img_pathnames \<le> length queue"
  define acts where
    "acts = concat (map (\<lambda>i. iteration out_folder i (img_pathnames ! i) (queue ! i)) [0..<length img_pathnames])"
  from a main_loop_enough[of img_pathnames queue out_folder 0]
  have ml: "main_loop out_folder (enumerate 0 img_pathnames) queue = (acts, True)"
    by (simp add: acts_def)
  have dq: "dequeued acts = take (length img_pathnames) queue"
    using a by (simp add: acts_def dequeued_concat comp_def dequeued_iteration
        concat_map_singleton map_nth_take)
  have s0: "submitted_to 0 acts =
          map (\<lambda>i. CalcBppUsingGzip (queue ! i) (img_pathnames ! i) i) [0..<length img_pathnames]"
    by (simp add: acts_def submitted_to_concat comp_def submitted_iteration concat_map_singleton)
  have s1: "submitted_to 1 acts =
          map (\<lambda>i. SaveImgsFromPatches (img_pathnames ! i) out_folder (queue ! i) i) [0..<length img_pathnames]"
    by (simp add: acts_def submitted_to_concat comp_def submitted_iteration concat_map_singleton)
  from a have f: "fst (create_out_folder st out_name fs) = Inr out_folder" by simp
  note ho = handle_output_reached[OF f ml, of job_returns]
  have st: "(snd (handle_output job_returns st out_name fs img_pathnames queue) = CalledReport) =
          (list_all job_returns (submitted_to 0 acts) \<and> list_all job_returns (submitted_to 1 acts))"
    unfolding ho by simp
  have tr: "(snd (handle_output job_returns st out_name fs img_pathnames queue) = CalledReport) =
          (fst (handle_output job_returns st out_name fs img_pathnames queue) =
             acts @ [PoolClose 0, PoolClose 1, PoolJoin 0, PoolJoin 1,
                     SaveOutAnalysis img_pathnames out_folder])"
    unfolding ho by simp
  from ml dq s0 s1 st tr show "let n = length img_pathnames;
         acts = concat (map (\<lambda>i. iteration out_folder i (img_pathnames ! i) (queue ! i)) [0..<n])
     in main_loop out_folder (enumerate 0 img_pathnames) queue = (acts, True) \<and>
        dequeued acts = take n queue \<and>
        submitted_to 0 acts =
          map (\<lambda>i. CalcBppUsingGzip (queue ! i) (img_pathnames ! i) i) [0..<n] \<and>
        submitted_to 1 acts =
          map (\<lambda>i. SaveImgsFromPatches (img_pathnames ! i) out_folder (queue ! i) i) [0..<n] \<and>
        (snd (handle_output job_returns st out_name fs img_pathnames queue) = CalledReport) =
          (list_all job_returns (submitted_to 0 acts) \<and> list_all job_returns (submitted_to 1 acts)) \<and>
        (snd (handle_output job_returns st out_name fs img_pathnames queue) = CalledReport) =
          (fst (handle_output job_returns st out_name fs img_pathnames queue) =
             acts @ [PoolClose 0, PoolClose 1, PoolJoin 0, PoolJoin 1,
                     SaveOutAnalysis img_pathnames out_folder])"
    unfolding Let_def acts_def[symmetric] by blast
qed

lemma test_folder:
  "fst (create_out_folder test_state [''out''] {}) = Inr (Some [''out'', ''test''])"
  by (simp add: create_out_folder_modes test_state_def)

text \<open>
  Claim C5 at a test run over six images with seven items on the queue, every job
  returning: memory is reclaimed before the turns 0 and 5, six items are taken, twelve
  jobs submitted, and the report builder is called after the two closes and two joins.
\<close>

theorem coordinator_loop_and_barrier_witness:
  "handle_output every_job_returns test_state [''out''] {} six_paths [10, 11, 12, 13, 14, 15, 16 :: nat] =
     ([GcCollect,
       QueueGet 10, ApplyAsync 0 (CalcBppUsingGzip 10 [''db'', ''a.png''] 0),
         ApplyAsync 1 (SaveImgsFromPatches [''db'', ''a.png''] (Some [''out'', ''test'']) 10 0),
       QueueGet 11, ApplyAsync 0 (CalcBppUsingGzip 11 [''db'', ''b.png''] 1),
         ApplyAsync 1 (SaveImgsFromPatches [''db'', ''b.png''] (Some [''out'', ''test'']) 11 1),
       QueueGet 12, ApplyAsync 0 (CalcBppUsingGzip 12 [''db'', ''c.png''] 2),
         ApplyAsync 1 (SaveImgsFromPatches [''db'', ''c.png''] (Some [''out'', ''test'']) 12 2),
       QueueGet 13, ApplyAsync 0 (CalcBppUsingGzip 13 [''db'', ''d.png''] 3),
         ApplyAsync 1 (SaveImgsFromPatches [''db'', ''d.png''] (Some [''out'', ''test'']) 13 3),
       QueueGet 14, ApplyAsync 0 (CalcBppUsingGzip 14 [''db'', ''e.png''] 4),
         ApplyAsync 1 (SaveImgsFromPatches [''db'', ''e.png''] (Some [''out'', ''test'']) 14 4),
       GcCollect,
       QueueGet 15, ApplyAsync 0 (CalcBppUsingGzip 15 [''db'', ''f.png''] 5),
         ApplyAsync 1 (SaveImgsFromPatches [''db'', ''f.png''] (Some [''out'', ''test'']) 15 5),
       PoolClose 0, PoolClose 1, PoolJoin 0, PoolJoin 1,
       SaveOutAnalysis six_paths (Some [''out'', ''test''])],
      CalledReport)"
proof -
  have len: "length six_paths \<le> length [10, 11, 12, 13, 14, 15, 16 :: nat]"
    by (simp add: six_paths_def)
  have all: "list_all every_job_returns js" for js
    by (simp add: list_all_iff every_job_returns_def)
  let ?ho = "handle_output every_job_returns test_state [''out''] {} six_paths [10, 11, 12, 13, 14, 15, 16 :: nat]"
  let ?acts = "concat (map (\<lambda>i. iteration (Some [''out'', ''test'']) i (six_paths ! i)
                          ([10, 11, 12, 13, 14, 15, 16 :: nat] ! i)) [0..<length six_paths])"
  note inst = coordinator_loop_and_barrier[of test_state "[''out'']" "{}" "Some [''out'', ''test'']"
      six_paths "[10, 11, 12, 13, 14, 15, 16 :: nat]" every_job_returns, unfolded Let_def]
  from inst test_folder len all have "snd ?ho = CalledReport"
    by blast
  moreover from inst test_folder len this have "fst ?ho = ?acts @ [PoolClose 0, PoolClose 1, PoolJoin 0, PoolJoin 1,
            SaveOutAnalysis six_paths (Some [''out'', ''test''])]"
    by blast
  ultimately have "?ho = (?acts @ [PoolClose 0, PoolClose 1, PoolJoin 0, PoolJoin 1,
            SaveOutAnalysis six_paths (Some [''out'', ''test''])], CalledReport)"
    by (metis prod.collapse)
  also have "length six_paths = 6" by (simp add: six_paths_def)
  finally have ho: "?ho = (concat (map (\<lambda>i. iteration (Some [''out'', ''test'']) i (six_paths ! i)
                          ([10, 11, 12, 13, 14, 15, 16 :: nat] ! i)) [0..<6])
         @ [PoolClose 0, PoolClose 1, PoolJoin 0, PoolJoin 1,
            SaveOutAnalysis six_paths (Some [''out'', ''test''])], CalledReport)" .
  have u: "[0..<6] = [0, 1, 2, 3, 4, 5 :: nat]"
    by code_simp
  show ?thesis
    unfolding ho u by (simp add: iteration_def six_paths_def)
qed

section \<open>Every cell is written at most once\<close>

lemma metric_writes_append: "metric_writes c (xs @ ys) = metric_writes c xs @ metric_writes c ys"
  by (induction c xs rule: metric_writes.induct) auto

lemma metrics_loop_writes:
  "metrics_loop ip r d pos ms s = (x, s') \<Longrightarrow>
     \<exists>n\<le>length ms. metric_writes c (evs s') =
        metric_writes c (evs s) @ map (\<lambda>m. MetricCell c (m_index m) pos) (take n ms)
        \<and> (x = None \<longrightarrow> n = length ms)"
proof (induction ms arbitrary: s)
  case Nil
  then show ?case by simp
next
  case (Cons a ms)
  show ?case
  proof (cases "calc_metric ip r d a")
    case (Inl e)
    with Cons.prems have "s' = s" "x \<noteq> None" by auto
    then show ?thesis by (intro exI[of _ 0]) simp
  next
    case (Inr v)
    show ?thesis
    proof (cases "store_metric (tbl s) (m_index a) pos v")
      case (Inl e)
      with Inr Cons.prems have "s' = s" "x \<noteq> None" by auto
      then show ?thesis by (intro exI[of _ 0]) simp
    next
      case t: (Inr t)
      let ?s1 = "emit (WroteMetric (m_index a) pos v) (s\<lparr>tbl := t\<rparr>)"
      from Cons.prems Inr t have run: "metrics_loop ip r d pos ms ?s1 = (x, s')" by simp
      from Cons.IH[OF run] obtain n where n: "n \<le> length ms"
        "metric_writes c (evs s') =
           metric_writes c (evs ?s1) @ map (\<lambda>m. MetricCell c (m_index m) pos) (take n ms)"
        "x = None \<longrightarrow> n = length ms" by blast
      have "metric_writes c (evs ?s1) = metric_writes c (evs s) @ [MetricCell c (m_index a) pos]"
        by (simp add: emit_def metric_writes_append)
      with n show ?thesis by (intro exI[of _ "Suc n"]) simp
    qed
  qed
qed

lemma metrics_phase_writes:
  assumes "metrics_phase ip Metrics orig_path patches metrics_proxy pos = (x, s1)"
  shows "\<exists>n\<le>length Metrics. metric_writes c (evs s1) =
        map (\<lambda>m. MetricCell c (m_index m) pos) (take n Metrics) \<and> (x = None \<longrightarrow> n = length Metrics)"
proof (cases "load_image ip orig_path")
  case (Inl e)
  with assms have "evs s1 = []" "x \<noteq> None" by (auto simp: metrics_phase_def)
  then show ?thesis by (intro exI[of _ 0]) auto
next
  case (Inr r)
  with assms have "metrics_loop ip r patches pos Metrics \<lparr>tbl = metrics_proxy, evs = []\<rparr> = (x, s1)"
    by (simp add: metrics_phase_def)
  from metrics_loop_writes[OF this, of c] show ?thesis by simp
qed

text \<open>What one job adds to the cells written, and what a list of jobs adds.\<close>

lemma run_job_written:
  assumes "distinct (map m_index Metrics)"
  shows "\<exists>ws. written (run_job ip estimate Metrics net j T) = written T @ ws \<and> distinct ws \<and>
     (\<forall>w\<in>set ws. cell_key w = job_key j)"
proof (cases j)
  case (CalcBppUsingGzip data path i)
  obtain b ws where c: "calc_bpp_using_gzip estimate data path (bpp_net T) i = (b, ws)"
    by (cases "calc_bpp_using_gzip estimate data path (bpp_net T) i")
  then have "ws = [] \<or> ws = [i]"
    by (auto simp: calc_bpp_using_gzip_def split: sum.splits)
  with c CalcBppUsingGzip show ?thesis by auto
next
  case (SaveImgsFromPatches path out patches i)
  obtain x s1 where ph: "metrics_phase ip Metrics path patches (metrics_net T) i = (x, s1)"
    by (cases "metrics_phase ip Metrics path patches (metrics_net T) i")
  from metrics_phase_writes[OF ph, of net] obtain n where
    w: "metric_writes net (evs s1) = map (\<lambda>m. MetricCell net (m_index m) i) (take n Metrics)"
    by blast
  have "distinct (map m_index (take n Metrics))"
    using assms by (simp add: take_map[symmetric] distinct_take)
  then have "distinct (map (\<lambda>m. MetricCell net (m_index m) i) (take n Metrics))"
    by (simp add: distinct_map inj_on_def)
  with ph w SaveImgsFromPatches show ?thesis by auto
qed

lemma run_jobs_written:
  assumes "distinct (map m_index Metrics)"
  shows "distinct (map job_key js) \<Longrightarrow>
    \<exists>ws. written (run_jobs ip estimate Metrics net js T) = written T @ ws \<and> distinct ws \<and>
      cell_key ` set ws \<subseteq> job_key ` set js"
proof (induction js arbitrary: T)
  case Nil
  then show ?case by (simp add: run_jobs_def)
next
  case (Cons j js)
  from run_job_written[OF assms, of ip estimate net j T] obtain ws1 where
    ws1: "written (run_job ip estimate Metrics net j T) = written T @ ws1" "distinct ws1"
      "\<forall>w\<in>set ws1. cell_key w = job_key j" by blast
  from Cons.prems have d: "distinct (map job_key js)" and nj: "job_key j \<notin> job_key ` set js"
    by auto
  from Cons.IH[OF d, of "run_job ip estimate Metrics net j T"] obtain ws2 where
    ws2: "written (run_jobs ip estimate Metrics net js (run_job ip estimate Metrics net j T))
            = written (run_job ip estimate Metrics net j T) @ ws2" "distinct ws2"
      "cell_key ` set ws2 \<subseteq> job_key ` set js" by blast
  have disj: "set ws1 \<inter> set ws2 = {}"
  proof (rule ccontr)
    assume "set ws1 \<inter> set ws2 \<noteq> {}"
    then obtain w where "w \<in> set ws1" "w \<in> set ws2" by auto
    with ws1(3) ws2(3) have "job_key j \<in> job_key ` set js" by force
    with nj show False ..
  qed
  have "written (run_jobs ip estimate Metrics net (j # js) T) = written T @ (ws1 @ ws2)"
    using ws1(1) ws2(1) by (simp add: run_jobs_def)
  moreover have "distinct (ws1 @ ws2)" using ws1(2) ws2(2) disj by simp
  moreover have "cell_key ` set (ws1 @ ws2) \<subseteq> job_key ` set (j # js)"
    using ws1(3) ws2(3) by auto
  ultimately show ?case by blast
qed

lemma metrics_loop_prefix:
  "metrics_loop ip r d pos ms s = (x, s') \<Longrightarrow>
     \<exists>n\<le>length ms. metrics_loop ip r d pos (take n ms) s = (None, s') \<and>
        (x = None \<longrightarrow> n = length ms)"
proof (induction ms arbitrary: s)
  case Nil
  then show ?case by simp
next
  case (Cons a ms)
  show ?case
  proof (cases "calc_metric ip r d a")
    case (Inl e)
    with Cons.prems have "s' = s" "x \<noteq> None" by auto
    then show ?thesis by (intro exI[of _ 0]) auto
  next
    case (Inr v)
    show ?thesis
    proof (cases "store_metric (tbl s) (m_index a) pos v")
      case (Inl e)
      with Inr Cons.prems have "s' = s" "x \<noteq> None" by auto
      then show ?thesis by (intro exI[of _ 0]) auto
    next
      case t: (Inr t)
      let ?s1 = "emit (WroteMetric (m_index a) pos v) (s\<lparr>tbl := t\<rparr>)"
      from Cons.prems Inr t have run: "metrics_loop ip r d pos ms ?s1 = (x, s')" by simp
      from Cons.IH[OF run] obtain n where n: "n \<le> length ms"
        "metrics_loop ip r d pos (take n ms) ?s1 = (None, s')" "x = None \<longrightarrow> n = length ms"
        by blast
      with Inr t show ?thesis by (intro exI[of _ "Suc n"]) simp
    qed
  qed
qed

text \<open>A job of the second pool: the cells it writes hold the computed values.\<close>

lemma save_job_effect:
  assumes d: "distinct (map m_index Metrics)"
  shows "run_effect ip estimate Metrics net [SaveImgsFromPatches path out patches i] T
     (run_job ip estimate Metrics net (SaveImgsFromPatches path out patches i) T)
     (metric_writes net (evs (snd (metrics_phase ip Metrics path patches (metrics_net T) i))))"
proof -
  let ?j = "SaveImgsFromPatches path out patches i"
  obtain x s1 where ph: "metrics_phase ip Metrics path patches (metrics_net T) i = (x, s1)"
    by (cases "metrics_phase ip Metrics path patches (metrics_net T) i")
  let ?T1 = "run_job ip estimate Metrics net ?j T"
  let ?ws = "metric_writes net (evs s1)"
  have T1: "written ?T1 = written T @ ?ws" "metrics_net ?T1 = tbl s1" "bpp_net ?T1 = bpp_net T"
    using ph by simp_all
  show ?thesis
  proof (cases "load_image ip path")
    case (Inl e)
    with ph have "evs s1 = []" "tbl s1 = metrics_net T" by (auto simp: metrics_phase_def)
    with T1 ph show ?thesis by (simp add: run_effect_def)
  next
    case (Inr r)
    with ph have loop: "metrics_loop ip r patches i Metrics \<lparr>tbl = metrics_net T, evs = []\<rparr> = (x, s1)"
      by (simp add: metrics_phase_def)
    from metrics_loop_prefix[OF loop] obtain n where n: "n \<le> length Metrics"
      and pre: "metrics_loop ip r patches i (take n Metrics) \<lparr>tbl = metrics_net T, evs = []\<rparr> = (None, s1)"
      by blast
    from metrics_loop_writes[OF pre, of net]
    have ws: "?ws = map (\<lambda>m. MetricCell net (m_index m) i) (take n Metrics)"
      using n by auto
    have "distinct (map m_index (take n Metrics))"
      using d by (simp add: take_map[symmetric] distinct_take)
    then have dws: "distinct ?ws"
      unfolding ws by (simp add: distinct_map inj_on_def)
    have keys: "cell_key ` set ?ws \<subseteq> job_key ` set [?j]"
      unfolding ws by auto
    have stored: "c = net \<and> metric_stored ip Metrics [?j] k i' (metrics_net ?T1 ! k ! i')"
      if "MetricCell c k i' \<in> set ?ws" for c k i'
    proof -
      from that obtain m where m: "m \<in> set (take n Metrics)" "c = net" "k = m_index m" "i' = i"
        unfolding ws by auto
      from metrics_loop_cells[OF pre m(1)] obtain m' where
        m': "m' \<in> set (take n Metrics)" "m_index m' = m_index m"
          "calc_metric ip r patches m' = Inr (tbl s1 ! m_index m ! i)" by blast
      from m'(1) have "m' \<in> set Metrics" by (rule in_set_takeD)
      with m' m Inr T1 show ?thesis
        unfolding metric_stored_def by auto
    qed
    have kept: "metrics_net ?T1 ! k ! i' = metrics_net T ! k ! i'"
      if "MetricCell net k i' \<notin> set ?ws" for k i'
    proof (cases "i' = i")
      case False
      with metrics_loop_shape[OF pre] T1 show ?thesis by simp
    next
      case True
      with that have "k \<notin> m_index ` set (take n Metrics)" unfolding ws by auto
      with metrics_loop_shape[OF pre] T1 show ?thesis by simp
    qed
    have nosize: "SizeCell c i' \<notin> set ?ws" for c i'
      unfolding ws by auto
    from T1 dws keys stored kept nosize ph show ?thesis
      unfolding run_effect_def by auto
  qed
qed

text \<open>A job of the first pool, as the specification has it.\<close>

lemma size_job_effect:
  "run_effect ip estimate Metrics net [CalcBppUsingGzip data path i] T
     (run_job ip estimate Metrics net (CalcBppUsingGzip data path i) T)
     (map (SizeCell net) (snd (calc_bpp_using_gzip estimate data path (bpp_net T) i)))"
proof (cases "estimate data path")
  case (Inl e)
  then show ?thesis
    by (simp add: run_effect_def calc_bpp_using_gzip_def)
next
  case (Inr v)
  show ?thesis
  proof (cases "i < length (bpp_net T)")
    case False
    with Inr show ?thesis
      by (simp add: run_effect_def calc_bpp_using_gzip_def setitem_def)
  next
    case True
    with Inr show ?thesis
      by (auto simp: run_effect_def calc_bpp_using_gzip_def setitem_def size_stored_def)
  qed
qed

lemma job_effect:
  assumes "distinct (map m_index Metrics)"
  shows "\<exists>ws. run_effect ip estimate Metrics net [j] T (run_job ip estimate Metrics net j T) ws"
proof (cases j)
  case (CalcBppUsingGzip data path i)
  with size_job_effect[of ip estimate Metrics net data path i T] show ?thesis by blast
next
  case (SaveImgsFromPatches path out patches i)
  with save_job_effect[OF assms, of ip estimate net path out patches i T] show ?thesis by blast
qed

lemma jobs_of_append: "jobs_of (xs @ ys) = jobs_of xs @ jobs_of ys"
  by (induction xs rule: jobs_of.induct) auto

lemma jobs_of_gc: "jobs_of ((if c then [GcCollect] else []) @ xs) = jobs_of xs"
  by simp

lemma main_loop_keys:
  "map job_key (jobs_of (fst (main_loop out (enumerate k xs) q)))
     = concat (map (\<lambda>i. [(0, k + i), (1, k + i)]) [0..<min (length xs) (length q)])"
proof (induction xs arbitrary: k q)
  case Nil
  then show ?case by simp
next
  case (Cons x xs)
  show ?case
  proof (cases q)
    case Nil
    then show ?thesis by simp
  next
    case (Cons item q')
    have lhs: "map job_key (jobs_of (fst (main_loop out (enumerate k (x # xs)) (item # q'))))
      = [(0, k), (1, k)] @ map job_key (jobs_of (fst (main_loop out (enumerate (Suc k) xs) q')))"
      by (simp add: codecs_out_routines_def split_beta jobs_of_append)
    have rhs: "concat (map (\<lambda>i. [(0::nat, k + i), (1::nat, k + i)])
                  [0..<min (length (x # xs)) (length (item # q'))])
      = [(0, k), (1, k)] @
        concat (map (\<lambda>i. [(0, Suc k + i), (1, Suc k + i)]) [0..<min (length xs) (length q')])"
      by (simp add: upt_conv_Cons map_Suc_upt[symmetric] comp_def del: upt_Suc)
    show ?thesis
      unfolding Cons lhs rhs using Cons.IH[of "Suc k" q'] by simp
  qed
qed

lemma handle_output_keys:
  "\<exists>n\<le>length img_pathnames.
     map job_key (jobs_of (fst (handle_output job_returns st out_name fs img_pathnames queue)))
       = concat (map (\<lambda>i. [(0, i), (1, i)]) [0..<n])"
proof (cases "fst (create_out_folder st out_name fs)")
  case (Inl e)
  then have "jobs_of (fst (handle_output job_returns st out_name fs img_pathnames queue)) = []"
    by (simp add: handle_output_def)
  then show ?thesis by (intro exI[of _ 0]) simp
next
  case (Inr out)
  obtain acts fin where ml: "main_loop out (enumerate 0 img_pathnames) queue = (acts, fin)"
    by (cases "main_loop out (enumerate 0 img_pathnames) queue")
  have "jobs_of (fst (handle_output job_returns st out_name fs img_pathnames queue)) = jobs_of acts"
    using Inr ml by (cases fin) (auto simp: handle_output_def jobs_of_append Let_def)
  moreover from main_loop_keys[of out 0 img_pathnames queue] ml
  have "map job_key (jobs_of acts)
     = concat (map (\<lambda>i. [(0, i), (1, i)]) [0..<min (length img_pathnames) (length queue)])"
    by simp
  ultimately show ?thesis
    by (intro exI[of _ "min (length img_pathnames) (length queue)"]) simp
qed

lemma distinct_keys: "distinct (concat (map (\<lambda>i. [(0::nat, i), (1::nat, i::nat)]) [0..<n]))"
proof (induction n)
  case 0
  then show ?case by simp
next
  case (Suc n)
  have "concat (map (\<lambda>i. [(0::nat, i), (1::nat, i)]) [0..<Suc n])
      = concat (map (\<lambda>i. [(0, i), (1, i)]) [0..<n]) @ [(0, n), (1, n)]"
    by simp
  moreover have "(a, n) \<notin> set (concat (map (\<lambda>i. [(0::nat, i), (1::nat, i)]) [0..<n]))" for a
    by auto
  ultimately show ?case using Suc by simp
qed

text \<open>Composition of the effects of the jobs of a run.\<close>

lemma metric_stored_mono:
  "metric_stored ip Metrics js k i v \<Longrightarrow> set js \<subseteq> set js' \<Longrightarrow> metric_stored ip Metrics js' k i v"
  unfolding metric_stored_def by blast

lemma size_stored_mono:
  "size_stored estimate js i v \<Longrightarrow> set js \<subseteq> set js' \<Longrightarrow> size_stored estimate js' i v"
  unfolding size_stored_def by blast

lemma run_effect_Cons:
  assumes one: "run_effect ip estimate Metrics net [j] T T1 ws1"
    and rest: "run_effect ip estimate Metrics net js T1 T' ws2"
    and fresh: "job_key j \<notin> job_key ` set js"
  shows "run_effect ip estimate Metrics net (j # js) T T' (ws1 @ ws2)"
proof -
  from one have o: "written T1 = written T @ ws1" "distinct ws1"
    "cell_key ` set ws1 \<subseteq> job_key ` set [j]"
    "\<And>c k i. MetricCell c k i \<in> set ws1 \<Longrightarrow>
        c = net \<and> metric_stored ip Metrics [j] k i (metrics_net T1 ! k ! i)"
    "\<And>k i. MetricCell net k i \<notin> set ws1 \<Longrightarrow> metrics_net T1 ! k ! i = metrics_net T ! k ! i"
    "\<And>c i. SizeCell c i \<in> set ws1 \<Longrightarrow> c = net \<and> size_stored estimate [j] i (bpp_net T1 ! i)"
    "\<And>i. SizeCell net i \<notin> set ws1 \<Longrightarrow> bpp_net T1 ! i = bpp_net T ! i"
    unfolding run_effect_def by blast+
  from rest have r: "written T' = written T1 @ ws2" "distinct ws2"
    "cell_key ` set ws2 \<subseteq> job_key ` set js"
    "\<And>c k i. MetricCell c k i \<in> set ws2 \<Longrightarrow>
        c = net \<and> metric_stored ip Metrics js k i (metrics_net T' ! k ! i)"
    "\<And>k i. MetricCell net k i \<notin> set ws2 \<Longrightarrow> metrics_net T' ! k ! i = metrics_net T1 ! k ! i"
    "\<And>c i. SizeCell c i \<in> set ws2 \<Longrightarrow> c = net \<and> size_stored estimate js i (bpp_net T' ! i)"
    "\<And>i. SizeCell net i \<notin> set ws2 \<Longrightarrow> bpp_net T' ! i = bpp_net T1 ! i"
    unfolding run_effect_def by blast+
  have disj: "set ws1 \<inter> set ws2 = {}"
  proof (rule ccontr)
    assume "set ws1 \<inter> set ws2 \<noteq> {}"
    then obtain w where "w \<in> set ws1" "w \<in> set ws2" by auto
    with o(3) r(3) have "job_key j \<in> job_key ` set js" by force
    with fresh show False ..
  qed
  have a: "written T' = written T @ (ws1 @ ws2)" using o(1) r(1) by simp
  have b: "distinct (ws1 @ ws2)" using o(2) r(2) disj by simp
  have c: "cell_key ` set (ws1 @ ws2) \<subseteq> job_key ` set (j # js)" using o(3) r(3) by auto
  have d: "c = net \<and> metric_stored ip Metrics (j # js) k i (metrics_net T' ! k ! i)"
    if "MetricCell c k i \<in> set (ws1 @ ws2)" for c k i
  proof (cases "MetricCell c k i \<in> set ws2")
    case True
    from r(4)[OF True] show ?thesis by (auto intro: metric_stored_mono)
  next
    case False
    with that have in1: "MetricCell c k i \<in> set ws1" by simp
    from o(4)[OF in1] have cn: "c = net"
      and st: "metric_stored ip Metrics [j] k i (metrics_net T1 ! k ! i)" by simp_all
    from False cn have "metrics_net T' ! k ! i = metrics_net T1 ! k ! i" by (intro r(5)) simp
    with st cn show ?thesis by (auto intro: metric_stored_mono)
  qed
  have e: "metrics_net T' ! k ! i = metrics_net T ! k ! i"
    if "MetricCell net k i \<notin> set (ws1 @ ws2)" for k i
    using that o(5)[of k i] r(5)[of k i] by simp
  have f: "c = net \<and> size_stored estimate (j # js) i (bpp_net T' ! i)"
    if "SizeCell c i \<in> set (ws1 @ ws2)" for c i
  proof (cases "SizeCell c i \<in> set ws2")
    case True
    from r(6)[OF True] show ?thesis by (auto intro: size_stored_mono)
  next
    case False
    with that have in1: "SizeCell c i \<in> set ws1" by simp
    from o(6)[OF in1] have cn: "c = net"
      and st: "size_stored estimate [j] i (bpp_net T1 ! i)" by simp_all
    from False cn have "bpp_net T' ! i = bpp_net T1 ! i" by (intro r(7)) simp
    with st cn show ?thesis by (auto intro: size_stored_mono)
  qed
  have g: "bpp_net T' ! i = bpp_net T ! i" if "SizeCell net i \<notin> set (ws1 @ ws2)" for i
    using that o(7)[of i] r(7)[of i] by simp
  from a b c d e f g show ?thesis
    unfolding run_effect_def by blast
qed

lemma run_jobs_effect:
  assumes "distinct (map m_index Metrics)"
  shows "distinct (map job_key js) \<Longrightarrow>
    \<exists>ws. run_effect ip estimate Metrics net js T (run_jobs ip estimate Metrics net js T) ws"
proof (induction js arbitrary: T)
  case Nil
  have "run_effect ip estimate Metrics net [] T T []" by (simp add: run_effect_def)
  then show ?case by (auto simp: run_jobs_def)
next
  case (Cons j js)
  from job_effect[OF assms, of ip estimate net j T] obtain ws1 where
    one: "run_effect ip estimate Metrics net [j] T (run_job ip estimate Metrics net j T) ws1" ..
  from Cons.prems have d: "distinct (map job_key js)" and fresh: "job_key j \<notin> job_key ` set js"
    by auto
  from Cons.IH[OF d, of "run_job ip estimate Metrics net j T"] obtain ws2 where
    rest: "run_effect ip estimate Metrics net js (run_job ip estimate Metrics net j T)
       (run_jobs ip estimate Metrics net js (run_job ip estimate Metrics net j T)) ws2" ..
  have "run_jobs ip estimate Metrics net (j # js) T
      = run_jobs ip estimate Metrics net js (run_job ip estimate Metrics net j T)"
    by (simp add: run_jobs_def)
  with run_effect_Cons[OF one rest fresh] show ?case by auto
qed

text \<open>
  Claim C7. Every size cell and every metric cell is written at most once over a run.
  The jobs submitted by the coordinator are keyed one to one with the image index: one
  job of the first pool and one of the second per index, in order. When the metric rows
  are distinct, running these jobs from tables \<open>b\<close> and \<open>m\<close> writes no cell twice; every
  metric cell written is a cell of the learned codec and holds, in the metric lists, the
  value \<open>calc_metric\<close> returned for a metric of its row in the job of its image; every
  size cell written is a cell of the learned codec and holds the size estimated by the
  job of its image; every cell not written holds what it held before. A job of the second
  pool whose metrics loop ends without an exception has written the cell of each metric
  for its index exactly once, in the order of the metrics, and each of these cells holds
  the value computed for that metric.
\<close>

theorem cells_written_at_most_once:
  "(\<exists>n\<le>length img_pathnames.
      map job_key (jobs_of (fst (handle_output job_returns st out_name fs img_pathnames queue)))
        = concat (map (\<lambda>i. [(0, i), (1, i)]) [0..<n])) \<and>
   (distinct (map m_index Metrics) \<longrightarrow>
      (let js = jobs_of (fst (handle_output job_returns st out_name fs img_pathnames queue));
           T' = run_jobs ip estimate Metrics net js \<lparr>bpp_net = b, metrics_net = m, written = []\<rparr>
       in distinct (written T') \<and>
          (\<forall>c k i. MetricCell c k i \<in> set (written T') \<longrightarrow>
             c = net \<and> metric_stored ip Metrics js k i (metrics_net T' ! k ! i)) \<and>
          (\<forall>k i. MetricCell net k i \<notin> set (written T') \<longrightarrow> metrics_net T' ! k ! i = m ! k ! i) \<and>
          (\<forall>c i. SizeCell c i \<in> set (written T') \<longrightarrow>
             c = net \<and> size_stored estimate js i (bpp_net T' ! i)) \<and>
          (\<forall>i. SizeCell net i \<notin> set (written T') \<longrightarrow> bpp_net T' ! i = b ! i)) \<and>
      (metrics_phase ip Metrics path patches m pos = (None, s1) \<longrightarrow>
         metric_writes net (evs s1) = map (\<lambda>mt. MetricCell net (m_index mt) pos) Metrics \<and>
         distinct (metric_writes net (evs s1)) \<and>
         (\<forall>mt. mt \<in> set Metrics \<longrightarrow>
            (\<exists>r. load_image ip path = Inr r \<and>
                 calc_metric ip r patches mt = Inr (tbl s1 ! m_index mt ! pos)))))"
proof (intro conjI impI)
  show "\<exists>n\<le>length img_pathnames.
      map job_key (jobs_of (fst (handle_output job_returns st out_name fs img_pathnames queue)))
        = concat (map (\<lambda>i. [(0, i), (1, i)]) [0..<n])"
    by (rule handle_output_keys)
next
  assume d: "distinct (map m_index Metrics)"
  define js where "js = jobs_of (fst (handle_output job_returns st out_name fs img_pathnames queue))"
  define T' where
    "T' = run_jobs ip estimate Metrics net js \<lparr>bpp_net = b, metrics_net = m, written = []\<rparr>"
  from handle_output_keys[of img_pathnames job_returns st out_name fs queue] distinct_keys
  have "distinct (map job_key js)" unfolding js_def by auto
  from run_jobs_effect[OF d this, of ip estimate net "\<lparr>bpp_net = b, metrics_net = m, written = []\<rparr>"]
  obtain ws where
    "run_effect ip estimate Metrics net js \<lparr>bpp_net = b, metrics_net = m, written = []\<rparr> T' ws"
    unfolding T'_def by blast
  then have "distinct (written T') \<and>
          (\<forall>c k i. MetricCell c k i \<in> set (written T') \<longrightarrow>
             c = net \<and> metric_stored ip Metrics js k i (metrics_net T' ! k ! i)) \<and>
          (\<forall>k i. MetricCell net k i \<notin> set (written T') \<longrightarrow> metrics_net T' ! k ! i = m ! k ! i) \<and>
          (\<forall>c i. SizeCell c i \<in> set (written T') \<longrightarrow>
             c = net \<and> size_stored estimate js i (bpp_net T' ! i)) \<and>
          (\<forall>i. SizeCell net i \<notin> set (written T') \<longrightarrow> bpp_net T' ! i = b ! i)"
    unfolding run_effect_def by simp
  then show "let js = jobs_of (fst (handle_output job_returns st out_name fs img_pathnames queue));
           T' = run_jobs ip estimate Metrics net js \<lparr>bpp_net = b, metrics_net = m, written = []\<rparr>
       in distinct (written T') \<and>
          (\<forall>c k i. MetricCell c k i \<in> set (written T') \<longrightarrow>
             c = net \<and> metric_stored ip Metrics js k i (metrics_net T' ! k ! i)) \<and>
          (\<forall>k i. MetricCell net k i \<notin> set (written T') \<longrightarrow> metrics_net T' ! k ! i = m ! k ! i) \<and>
          (\<forall>c i. SizeCell c i \<in> set (written T') \<longrightarrow>
             c = net \<and> size_stored estimate js i (bpp_net T' ! i)) \<and>
          (\<forall>i. SizeCell net i \<notin> set (written T') \<longrightarrow> bpp_net T' ! i = b ! i)"
    unfolding Let_def js_def[symmetric] T'_def[symmetric] .
next
  assume d: "distinct (map m_index Metrics)"
    and ph: "metrics_phase ip Metrics path patches m pos = (None, s1)"
  from metrics_phase_writes[OF ph, of net]
  show w: "metric_writes net (evs s1) = map (\<lambda>mt. MetricCell net (m_index mt) pos) Metrics"
    by auto
  from d have "distinct (map (\<lambda>mt. MetricCell net (m_index mt) pos) Metrics)"
    by (simp add: distinct_map inj_on_def)
  with w show "distinct (metric_writes net (evs s1))" by simp
  from metrics_phase_None[OF ph] obtain r where r: "load_image ip path = Inr r"
    and run: "metrics_loop ip r patches pos Metrics \<lparr>tbl = m, evs = []\<rparr> = (None, s1)"
    by blast
  show "\<forall>mt. mt \<in> set Metrics \<longrightarrow>
            (\<exists>r. load_image ip path = Inr r \<and>
                 calc_metric ip r patches mt = Inr (tbl s1 ! m_index mt ! pos))"
  proof (intro allI impI)
    fix mt assume mt: "mt \<in> set Metrics"
    from metrics_loop_cells[OF run mt] obtain m' where
      m': "m' \<in> set Metrics" "m_index m' = m_index mt"
        "calc_metric ip r patches m' = Inr (tbl s1 ! m_index mt ! pos)" by blast
    from same_index_same_metric[OF d mt m'(1) m'(2)] m'(3) r
    show "\<exists>r. load_image ip path = Inr r \<and>
                 calc_metric ip r patches mt = Inr (tbl s1 ! m_index mt ! pos)"
      by auto
  qed
qed

lemma two_images_jobs:
  "jobs_of (fst (handle_output every_job_returns test_state [''out''] {}
      [[''db'', ''a.png''], [''db'', ''b.png'']] [10, 11]))
   = [CalcBppUsingGzip 10 [''db'', ''a.png''] 0,
      SaveImgsFromPatches [''db'', ''a.png''] (Some [''out'', ''test'']) 10 0,
      CalcBppUsingGzip 11 [''db'', ''b.png''] 1,
      SaveImgsFromPatches [''db'', ''b.png''] (Some [''out'', ''test'']) 11 1]"
  by (simp add: handle_output_def test_folder codecs_out_routines_def every_job_returns_def)

lemma phase_data_0:
  "metrics_phase ip_by_data two_metrics p 10 [[PNone, PNone], [PNone, PNone]] 0
     = (None, \<lparr>tbl = [[PFloat 100, PNone], [PFloat 101, PNone]],
               evs = [WroteMetric 0 0 (PFloat 100), WroteMetric 1 0 (PFloat 101)]\<rparr>)"
  by (simp add: metrics_phase_def ip_by_data_def two_metrics_def store_metric_def getitem_def
      setitem_def emit_def)

lemma phase_data_1:
  "metrics_phase ip_by_data two_metrics p 11 [[PFloat 100, PNone], [PFloat 101, PNone]] (Suc 0)
     = (None, \<lparr>tbl = [[PFloat 100, PFloat 110], [PFloat 101, PFloat 111]],
               evs = [WroteMetric 0 (Suc 0) (PFloat 110), WroteMetric (Suc 0) (Suc 0) (PFloat 111)]\<rparr>)"
  by (simp add: metrics_phase_def ip_by_data_def two_metrics_def store_metric_def getitem_def
      setitem_def emit_def)

text \<open>
  Claim C7 at a test run over two images with two metrics, every computation
  succeeding with values that depend on the image: the four jobs, the final tables and
  the six cells written, all different.
\<close>

theorem cells_written_at_most_once_witness:
  "map job_key (jobs_of (fst (handle_output every_job_returns test_state [''out''] {}
         [[''db'', ''a.png''], [''db'', ''b.png'']] [10, 11])))
     = [(0, 0), (1, 0), (0, 1), (1, 1)] \<and>
   run_jobs ip_by_data estimate_by_data two_metrics 0
      (jobs_of (fst (handle_output every_job_returns test_state [''out''] {}
         [[''db'', ''a.png''], [''db'', ''b.png'']] [10, 11])))
      \<lparr>bpp_net = [PNone, PNone], metrics_net = [[PNone, PNone], [PNone, PNone]], written = []\<rparr>
   = \<lparr>bpp_net = [PList [5], PList [11 / 2]],
      metrics_net = [[PFloat 100, PFloat 110], [PFloat 101, PFloat 111]],
      written = [SizeCell 0 0, MetricCell 0 0 0, MetricCell 0 1 0,
                 SizeCell 0 1, MetricCell 0 0 1, MetricCell 0 1 1]\<rparr> \<and>
   distinct [SizeCell 0 0, MetricCell 0 0 0, MetricCell 0 1 0,
             SizeCell 0 1, MetricCell 0 0 1, MetricCell 0 1 1] \<and>
   metric_stored ip_by_data two_metrics
      (jobs_of (fst (handle_output every_job_returns test_state [''out''] {}
         [[''db'', ''a.png''], [''db'', ''b.png'']] [10, 11]))) 1 1 (PFloat 111) \<and>
   size_stored estimate_by_data
      (jobs_of (fst (handle_output every_job_returns test_state [''out''] {}
         [[''db'', ''a.png''], [''db'', ''b.png'']] [10, 11]))) 1 (PList [11 / 2]) \<and>
   metric_writes 0 (evs (snd (metrics_phase ip_by_data two_metrics [''db'', ''a.png''] 10
        [[PNone, PNone], [PNone, PNone]] 0)))
     = [MetricCell 0 0 0, MetricCell 0 1 0] \<and>
   tbl (snd (metrics_phase ip_by_data two_metrics [''db'', ''a.png''] 10
        [[PNone, PNone], [PNone, PNone]] 0))
     = [[PFloat 100, PNone], [PFloat 101, PNone]]"
proof -
  let ?js = "jobs_of (fst (handle_output every_job_returns test_state [''out''] {}
         [[''db'', ''a.png''], [''db'', ''b.png'']] [10, 11]))"
  let ?T = "run_jobs ip_by_data estimate_by_data two_metrics 0 ?js
      \<lparr>bpp_net = [PNone, PNone], metrics_net = [[PNone, PNone], [PNone, PNone]], written = []\<rparr>"
  have d: "distinct (map m_index two_metrics)"
    by (simp add: two_metrics_def)
  have keys: "map job_key ?js = [(0, 0), (1, 0), (0, 1), (1, 1)]"
    unfolding two_images_jobs by simp
  have run: "?T = \<lparr>bpp_net = [PList [5], PList [11 / 2]],
      metrics_net = [[PFloat 100, PFloat 110], [PFloat 101, PFloat 111]],
      written = [SizeCell 0 0, MetricCell 0 0 0, MetricCell 0 1 0,
                 SizeCell 0 1, MetricCell 0 0 1, MetricCell 0 1 1]\<rparr>"
    unfolding two_images_jobs
    by (simp add: run_jobs_def calc_bpp_using_gzip_def estimate_by_data_def setitem_def
        phase_data_0 phase_data_1)
  note inst = cells_written_at_most_once[of "[[''db'', ''a.png''], [''db'', ''b.png'']]"
      every_job_returns test_state "[''out'']" "{}" "[10, 11]" two_metrics ip_by_data
      estimate_by_data 0 "[PNone, PNone]" "[[PNone, PNone], [PNone, PNone]]"
      "[''db'', ''a.png'']" 10 0
      "\<lparr>tbl = [[PFloat 100, PNone], [PFloat 101, PNone]],
        evs = [WroteMetric 0 0 (PFloat 100), WroteMetric 1 0 (PFloat 101)]\<rparr>"]
  from inst d have all: "distinct (written ?T) \<and>
          (\<forall>c k i. MetricCell c k i \<in> set (written ?T) \<longrightarrow>
             c = 0 \<and> metric_stored ip_by_data two_metrics ?js k i (metrics_net ?T ! k ! i)) \<and>
          (\<forall>c i. SizeCell c i \<in> set (written ?T) \<longrightarrow>
             c = 0 \<and> size_stored estimate_by_data ?js i (bpp_net ?T ! i))"
    unfolding Let_def by blast
  from all have dist: "distinct (written ?T)" by blast
  from all have "MetricCell 0 1 1 \<in> set (written ?T) \<longrightarrow>
      metric_stored ip_by_data two_metrics ?js 1 1 (metrics_net ?T ! 1 ! 1)" by blast
  then have ms: "metric_stored ip_by_data two_metrics ?js 1 1 (PFloat 111)"
    unfolding run by simp
  from all have "SizeCell 0 1 \<in> set (written ?T) \<longrightarrow>
      size_stored estimate_by_data ?js 1 (bpp_net ?T ! 1)" by blast
  then have ss: "size_stored estimate_by_data ?js 1 (PList [11 / 2])"
    unfolding run by simp
  from inst d phase_data_0[of "[''db'', ''a.png'']"]
  have ph: "metric_writes 0 (evs \<lparr>tbl = [[PFloat 100, PNone], [PFloat 101, PNone]],
        evs = [WroteMetric 0 0 (PFloat 100), WroteMetric 1 0 (PFloat 101)]\<rparr>)
      = map (\<lambda>mt. MetricCell 0 (m_index mt) 0) two_metrics"
    by blast
  have a: "metric_writes 0 (evs (snd (metrics_phase ip_by_data two_metrics [''db'', ''a.png''] 10
        [[PNone, PNone], [PNone, PNone]] 0))) = [MetricCell 0 0 0, MetricCell 0 1 0]"
    unfolding phase_data_0 using ph by (simp add: two_metrics_def)
  have b: "tbl (snd (metrics_phase ip_by_data two_metrics [''db'', ''a.png''] 10
        [[PNone, PNone], [PNone, PNone]] 0)) = [[PFloat 100, PNone], [PFloat 101, PNone]]"
    unfolding phase_data_0 by simp
  from dist have dd: "distinct [SizeCell 0 0, MetricCell 0 0 0, MetricCell 0 1 0,
             SizeCell 0 1, MetricCell 0 0 1, MetricCell 0 1 1]"
    unfolding run by simp
  from keys run dd ms ss a b show ?thesis by blast
qed

end
